theory Spec2Isabelle
  imports Complex_Main "HOL-Library.Sublist" "HOL-Library.Word"
begin

section \<open>Data model\<close>

text \<open>
  The types of \<^verbatim>\<open>types/organizer-updated\<close> and of the unified engine.
  JavaScript numbers are modelled by the reals (counters by naturals); IEEE rounding is
  not part of the model. A JavaScript string is a \<^typ>\<open>string\<close>, one character per
  code unit, so that \<^term>\<open>length\<close> is \<^verbatim>\<open>.length\<close>; code units above
  U+00FF have no character here. An optional field
  \<^verbatim>\<open>f?: T\<close> is a \<^typ>\<open>'a option\<close>, \<^term>\<open>None\<close> standing for
  \<^verbatim>\<open>undefined\<close>. Of an analysis the random id, the preview URL, the size in MB,
  the timestamp and the bounding boxes are left out.
\<close>

datatype ImageCategory =
  Selfies | Documents | Screenshots | Nature | Food | Art | Nsfw | Duplicates | General
  | Memes | Receipts | QrCodes | Pets | Vehicles | Architecture

datatype NsfwClassName = Porn | Hentai | Sexy | Drawing | Neutral

record Classification =
  label :: string
  score :: real

record NsfwPrediction =
  className :: NsfwClassName
  probability :: real

record Face =
  age :: int
  gender :: string
  expression :: string
  confidence :: real

record Quality =
  sharpness :: real
  contrast :: real
  brightness :: real
  qscore :: real

record FileRef =
  fileName :: string
  fileSize :: nat

record ImageAnalysis =
  analysisFile :: FileRef
  error :: "string option"
  dimensions :: "nat \<times> nat"
  classification :: "Classification list option"
  description :: "string option"
  objects :: "Classification list option"
  nsfw :: "NsfwPrediction list option"
  faces :: "Face list option"
  ocrText :: "string option"
  pHash :: "string option"
  quality :: "Quality option"
  palette :: "string list option"
  processingTime :: nat

record AiSettings =
  runClassifier :: bool
  runCaptioner :: bool
  runObjectDetection :: bool
  runNsfw :: bool
  nsfwThreshold :: real
  runFaceDetection :: bool
  runOcr :: bool
  runDuplicateDetection :: bool
  runQualityAnalysis :: bool
  runColorPalette :: bool

section \<open>Strings\<close>

text \<open>
  \<^verbatim>\<open>String.prototype.toLowerCase\<close> on the code units a \<^typ>\<open>char\<close> can hold:
  the letters A to Z, and U+00C0 to U+00DE but for the multiplication sign U+00D7, move
  up by 32; all others are kept.
\<close>

definition lowerChar :: "char \<Rightarrow> char" where
  "lowerChar c =
     (let n = (of_char c :: nat)
      in if (65 \<le> n \<and> n \<le> 90) \<or> (192 \<le> n \<and> n \<le> 222 \<and> n \<noteq> 215)
         then char_of (n + 32) else c)"

definition toLowerCase :: "string \<Rightarrow> string" where
  "toLowerCase s = map lowerChar s"

text \<open>\<^verbatim>\<open>s.includes(t)\<close>: \<open>t\<close> occurs in \<open>s\<close> as a contiguous run.\<close>

fun includesStr :: "string \<Rightarrow> string \<Rightarrow> bool" where
  "includesStr [] t = (t = [])"
| "includesStr (c # cs) t = (prefix t (c # cs) \<or> includesStr cs t)"

section \<open>Categorizer\<close>

text \<open>
  \<^verbatim>\<open>categorizeImage\<close>, rule by rule in the order of the source. The keyword chain
  looks at the top label only; it falls through to the NSFW check when no group matches.
\<close>

definition labelCategory :: "string \<Rightarrow> ImageCategory option" where
  "labelCategory topLabel =
     (if includesStr topLabel ''screen'' \<or> includesStr topLabel ''computer'' then Some Screenshots
      else if includesStr topLabel ''nature'' \<or> includesStr topLabel ''landscape''
              \<or> includesStr topLabel ''mountain'' \<or> includesStr topLabel ''beach'' then Some Nature
      else if includesStr topLabel ''food'' \<or> includesStr topLabel ''meal''
              \<or> includesStr topLabel ''dish'' then Some Food
      else if includesStr topLabel ''art'' \<or> includesStr topLabel ''painting'' then Some Art
      else if includesStr topLabel ''pet'' \<or> includesStr topLabel ''animal'' then Some Pets
      else if includesStr topLabel ''car'' \<or> includesStr topLabel ''vehicle'' then Some Vehicles
      else if includesStr topLabel ''building'' \<or> includesStr topLabel ''architecture''
        then Some Architecture
      else None)"

definition hasFaces :: "ImageAnalysis \<Rightarrow> bool" where
  "hasFaces a = (case faces a of None \<Rightarrow> False | Some fs \<Rightarrow> length fs > 0)"

definition longText :: "ImageAnalysis \<Rightarrow> bool" where
  "longText a = (case ocrText a of None \<Rightarrow> False | Some t \<Rightarrow> t \<noteq> [] \<and> length t > 50)"

definition topLabelCategory :: "ImageAnalysis \<Rightarrow> ImageCategory option" where
  "topLabelCategory a =
     (case classification a of
        None \<Rightarrow> None
      | Some [] \<Rightarrow> None
      | Some (c # cs) \<Rightarrow> labelCategory (toLowerCase (label c)))"

definition nsfwFlagged :: "ImageAnalysis \<Rightarrow> bool" where
  "nsfwFlagged a =
     (case nsfw a of None \<Rightarrow> False | Some ns \<Rightarrow> list_ex (\<lambda>n. probability n > 7 / 10) ns)"

definition categorizeImage :: "ImageAnalysis \<Rightarrow> ImageCategory" where
  "categorizeImage a =
     (if hasFaces a then Selfies
      else if longText a then Documents
      else case topLabelCategory a of
             Some c \<Rightarrow> c
           | None \<Rightarrow> if nsfwFlagged a then Nsfw else General)"

text \<open>An analysis with no optional field set, as \<^verbatim>\<open>analyze\<close> starts from.\<close>

definition blankAnalysis :: "FileRef \<Rightarrow> nat \<times> nat \<Rightarrow> ImageAnalysis" where
  "blankAnalysis f dims =
     \<lparr> analysisFile = f, error = None, dimensions = dims, classification = None,
       description = None, objects = None, nsfw = None, faces = None, ocrText = None,
       pHash = None, quality = None, palette = None, processingTime = 0 \<rparr>"

definition sampleFile :: FileRef where
  "sampleFile = \<lparr> fileName = ''IMG_0001.jpg'', fileSize = 2048 \<rparr>"

definition sampleFace :: Face where
  "sampleFace = \<lparr> age = 25, gender = ''unknown'', expression = ''neutral'', confidence = 4 / 5 \<rparr>"

text \<open>
  The hypotheses of the categorization claims: no detected face, an OCR text of at most
  50 characters, and no classification label that hits a keyword group.
\<close>

definition noFaces :: "ImageAnalysis \<Rightarrow> bool" where
  "noFaces a = (case faces a of None \<Rightarrow> True | Some fs \<Rightarrow> fs = [])"

definition shortText :: "ImageAnalysis \<Rightarrow> bool" where
  "shortText a = (case ocrText a of None \<Rightarrow> True | Some t \<Rightarrow> length t \<le> 50)"

definition noLabelMatch :: "ImageAnalysis \<Rightarrow> bool" where
  "noLabelMatch a =
     (case classification a of
        None \<Rightarrow> True
      | Some cs \<Rightarrow> list_all (\<lambda>c. labelCategory (toLowerCase (label c)) = None) cs)"

definition somePredictionAbove :: "real \<Rightarrow> ImageAnalysis \<Rightarrow> bool" where
  "somePredictionAbove t a =
     (case nsfw a of None \<Rightarrow> False | Some ns \<Rightarrow> list_ex (\<lambda>n. t < probability n) ns)"

section \<open>Capability providers\<close>

text \<open>
  \<^verbatim>\<open>this.models\<close> after \<^verbatim>\<open>initialize\<close>: for each provider whether its handle is
  set and whether its load was marked failed. \<open>faceNetLoaded\<close> is
  \<^verbatim>\<open>faceapi.nets.ssdMobilenetv1.isLoaded\<close>.
\<close>

record Models =
  classifier :: bool
  classifierFailed :: bool
  captioner :: bool
  captionerFailed :: bool
  objectDetector :: bool
  objectDetectorFailed :: bool
  nsfwModel :: bool
  nsfwFailed :: bool
  faceNetLoaded :: bool
  faceDetectionFailed :: bool
  ocr :: bool
  ocrFailed :: bool

text \<open>
  A call that may throw returns \<open>Inl\<close> the exception or \<open>Inr\<close> the value. What the
  external providers and the canvas answer for one image is an input of the model. An
  exception is a TypeError or a plain Error with its message, a DOMException with its
  name and message, or a thrown value that is no Error object, with its string conversion.
\<close>

datatype jsError =
  TypeError string | ProviderError string | DomError string string | NonError string

type_synonym 'a result = "jsError + 'a"

text \<open>
  The text \<^verbatim>\<open>${error}\<close> of an exception. For an Error object it is
  \<^verbatim>\<open>Error.prototype.toString\<close>: the name, a colon and the message, or only one of
  them when the other is empty. A DOMException has a name of its own (SecurityError,
  IndexSizeError, ...).
\<close>

definition errorToString :: "string \<Rightarrow> string \<Rightarrow> string" where
  "errorToString nm msg = (if nm = [] then msg else if msg = [] then nm else nm @ '': '' @ msg)"

definition errorText :: "jsError \<Rightarrow> string" where
  "errorText e =
     (case e of TypeError m \<Rightarrow> errorToString ''TypeError'' m
              | ProviderError m \<Rightarrow> errorToString ''Error'' m
              | DomError nm m \<Rightarrow> errorToString nm m
              | NonError t \<Rightarrow> t)"

definition fallbackNsfw :: "NsfwPrediction list" where
  "fallbackNsfw = [\<lparr> className = Neutral, probability = 95 / 100 \<rparr>]"

definition detectNSFW :: "Models \<Rightarrow> NsfwPrediction list result \<Rightarrow> NsfwPrediction list" where
  "detectNSFW m classify =
     (if nsfwModel m \<and> \<not> nsfwFailed m then
        (case classify of
           Inr predictions \<Rightarrow> filter (\<lambda>p. probability p > 1 / 100) predictions
         | Inl e \<Rightarrow> fallbackNsfw)
      else fallbackNsfw)"

definition noModels :: Models where
  "noModels =
     \<lparr> classifier = False, classifierFailed = True, captioner = False, captionerFailed = True,
       objectDetector = False, objectDetectorFailed = True, nsfwModel = False,
       nsfwFailed = True, faceNetLoaded = False, faceDetectionFailed = True, ocr = False,
       ocrFailed = True \<rparr>"

definition lowThreshold :: AiSettings where
  "lowThreshold =
     \<lparr> runClassifier = True, runCaptioner = True, runObjectDetection = False, runNsfw = True,
       nsfwThreshold = 1 / 2, runFaceDetection = True, runOcr = True,
       runDuplicateDetection = True, runQualityAnalysis = True, runColorPalette = True \<rparr>"

definition suggestive :: ImageAnalysis where
  "suggestive =
     (blankAnalysis sampleFile (640, 480))
       \<lparr> classification := Some [\<lparr> label = ''image'', score = 3 / 5 \<rparr>],
         nsfw := Some [\<lparr> className = Sexy, probability = 3 / 5 \<rparr>],
         faces := Some [], ocrText := Some [] \<rparr>"

definition plainFallback :: ImageAnalysis where
  "plainFallback =
     (blankAnalysis sampleFile (640, 480))
       \<lparr> classification := Some [\<lparr> label = ''image'', score = 3 / 5 \<rparr>],
         nsfw := Some (detectNSFW noModels (Inl (ProviderError ''not loaded''))),
         faces := Some [], ocrText := Some [] \<rparr>"

section \<open>Duplicate grouper\<close>

record DuplicateGroup =
  group :: "string list"
  similarity :: real

text \<open>
  \<^verbatim>\<open>calculateHashSimilarity\<close>: the share of positions that agree, 0 for different
  lengths. On two empty strings the source computes 0/0 (NaN) and the model 0; the grouper
  never calls it there, and neither value exceeds the threshold.
\<close>

definition matchCount :: "string \<Rightarrow> string \<Rightarrow> nat" where
  "matchCount hash1 hash2 = length (filter (\<lambda>(c, d). c = d) (zip hash1 hash2))"

definition calculateHashSimilarity :: "string \<Rightarrow> string \<Rightarrow> real" where
  "calculateHashSimilarity hash1 hash2 =
     (if length hash1 \<noteq> length hash2 then 0
      else real (matchCount hash1 hash2) / real (length hash1))"

text \<open>\<^verbatim>\<open>!hash\<close> holds for a missing hash and for the empty string.\<close>

definition truthyHash :: "ImageAnalysis \<Rightarrow> string option" where
  "truthyHash a = (case pHash a of None \<Rightarrow> None | Some h \<Rightarrow> if h = [] then None else Some h)"

text \<open>
  The inner loop of \<^verbatim>\<open>findSimilarImages\<close> over the images after the leader,
  threading the group and the set \<^verbatim>\<open>processed\<close>.
\<close>

fun scanRest ::
  "string \<Rightarrow> (string \<times> ImageAnalysis) list \<Rightarrow> string list \<times> string set
   \<Rightarrow> string list \<times> string set" where
  "scanRest hash1 [] (grp, processed) = (grp, processed)"
| "scanRest hash1 (img # rest) (grp, processed) =
     (if fst img \<in> processed then scanRest hash1 rest (grp, processed)
      else case truthyHash (snd img) of
             None \<Rightarrow> scanRest hash1 rest (grp, processed)
           | Some hash2 \<Rightarrow>
               if calculateHashSimilarity hash1 hash2 > 85 / 100
               then scanRest hash1 rest (grp @ [fst img], insert (fst img) processed)
               else scanRest hash1 rest (grp, processed))"

text \<open>The outer loop: the images from the leader on, the processed set, the groups so far.\<close>

fun groupFrom ::
  "(string \<times> ImageAnalysis) list \<Rightarrow> string set \<Rightarrow> DuplicateGroup list
   \<Rightarrow> DuplicateGroup list" where
  "groupFrom [] processed groups = groups"
| "groupFrom (img # rest) processed groups =
     (if fst img \<in> processed then groupFrom rest processed groups
      else case truthyHash (snd img) of
             None \<Rightarrow> groupFrom rest processed groups
           | Some hash1 \<Rightarrow>
               (case scanRest hash1 rest ([fst img], processed) of
                  (grp, processed') \<Rightarrow>
                    if length grp > 1
                    then groupFrom rest (processed' \<union> set grp)
                           (groups @ [\<lparr> group = grp, similarity = 9 / 10 \<rparr>])
                    else groupFrom rest processed' groups))"

definition findSimilarImages :: "(string \<times> ImageAnalysis) list \<Rightarrow> DuplicateGroup list" where
  "findSimilarImages images = groupFrom images {} []"

definition hashed :: "string \<Rightarrow> ImageAnalysis" where
  "hashed h = (blankAnalysis sampleFile (32, 32)) \<lparr> pHash := Some h \<rparr>"

text \<open>The test under which the inner loop adds an image to the leader's group.\<close>

definition joins :: "string \<Rightarrow> string set \<Rightarrow> string \<times> ImageAnalysis \<Rightarrow> bool" where
  "joins hash1 processed img =
     (fst img \<notin> processed \<and>
      (case truthyHash (snd img) of None \<Rightarrow> False
       | Some hash2 \<Rightarrow> calculateHashSimilarity hash1 hash2 > 85 / 100))"


definition trio :: "(string \<times> ImageAnalysis) list" where
  "trio = [(''a'', hashed ''1010''), (''x'', hashed ''0101''), (''b'', hashed ''1010'')]"

section \<open>Pixel buffers\<close>

text \<open>
  An \<^verbatim>\<open>ImageData\<close>: \<open>pixelData\<close> is the \<^verbatim>\<open>Uint8ClampedArray\<close>, four bytes
  (red, green, blue, alpha) per pixel in row-major order. A buffer read from a canvas
  always has \<open>4 * width * height\<close> bytes.
\<close>

record ImageData =
  width :: nat
  height :: nat
  pixelData :: "8 word list"

definition wellFormed :: "ImageData \<Rightarrow> bool" where
  "wellFormed img =
     (0 < width img \<and> 0 < height img \<and> length (pixelData img) = 4 * width img * height img)"

text \<open>
  The loops \<^verbatim>\<open>for (i = 0; i < data.length; i += 4)\<close> visit the pixels in order. A
  trailing group of fewer than four bytes, which no canvas buffer has, is dropped here.
\<close>

fun rgbaPixels :: "8 word list \<Rightarrow> (nat \<times> nat \<times> nat \<times> nat) list" where
  "rgbaPixels (r # g # b # a # rest) = (unat r, unat g, unat b, unat a) # rgbaPixels rest"
| "rgbaPixels rest = []"

definition pixelBrightness :: "nat \<times> nat \<times> nat \<times> nat \<Rightarrow> real" where
  "pixelBrightness p = (case p of (r, g, b, a) \<Rightarrow> (real r + real g + real b) / 3)"

section \<open>Perceptual hash\<close>

definition generatePHash :: "8 word list \<Rightarrow> string" where
  "generatePHash d =
     (let values = map pixelBrightness (rgbaPixels d);
          total = sum_list values;
          average = total / (real (length d) / 4)
      in map (\<lambda>brightness. if brightness > average then CHR ''1'' else CHR ''0'') values)"

section \<open>Quality analyzer\<close>

text \<open>
  \<^verbatim>\<open>parseFloat(x.toFixed(3))\<close>: the nearest multiple of 1/1000, a tie going to the
  larger magnitude.
\<close>

definition toFixed3 :: "real \<Rightarrow> real" where
  "toFixed3 x =
     (if x < 0 then - (real_of_int \<lfloor>- x * 1000 + 1 / 2\<rfloor> / 1000)
      else real_of_int \<lfloor>x * 1000 + 1 / 2\<rfloor> / 1000)"

text \<open>The mean of the three colour bytes that start at index \<open>j\<close>.\<close>

definition lum :: "8 word list \<Rightarrow> nat \<Rightarrow> real" where
  "lum d j = (real (unat (d ! j)) + real (unat (d ! (j + 1))) + real (unat (d ! (j + 2)))) / 3"

definition sobelAt :: "nat \<Rightarrow> 8 word list \<Rightarrow> nat \<Rightarrow> nat \<Rightarrow> real" where
  "sobelAt w d y x =
     (let i = (y * w + x) * 4;
          tl = lum d (i - w * 4 - 4);
          tm = lum d (i - w * 4);
          tr = lum d (i - w * 4 + 4);
          ml = lum d (i - 4);
          mr = lum d (i + 4);
          bl = lum d (i + w * 4 - 4);
          bm = lum d (i + w * 4);
          br = lum d (i + w * 4 + 4);
          sobelX = - 1 * tl + 1 * tr + - 2 * ml + 2 * mr + - 1 * bl + 1 * br;
          sobelY = - 1 * tl + - 2 * tm + - 1 * tr + 1 * bl + 2 * bm + 1 * br
      in sqrt (sobelX * sobelX + sobelY * sobelY))"

definition calculateSharpness :: "ImageData \<Rightarrow> real" where
  "calculateSharpness img =
     (\<Sum>y \<leftarrow> [1 ..< height img - 1]. \<Sum>x \<leftarrow> [1 ..< width img - 1].
         sobelAt (width img) (pixelData img) y x)
     / (real (width img) * real (height img) * 255)"

definition analyzeQuality :: "ImageData \<Rightarrow> Quality" where
  "analyzeQuality img =
     (let brightnessValues = map pixelBrightness (rgbaPixels (pixelData img));
          totalBrightness = sum_list brightnessValues;
          avgBrightness = totalBrightness / real (length brightnessValues);
          contrastSum = (\<Sum>b \<leftarrow> brightnessValues. (b - avgBrightness)\<^sup>2);
          contrast' = sqrt (contrastSum / real (length brightnessValues)) / 255;
          sharpness' = calculateSharpness img;
          brightnessScore = 1 - \<bar>avgBrightness - 128\<bar> / 128;
          contrastScore = min (contrast' * 2) 1;
          sharpnessScore = min sharpness' 1;
          overallScore = (brightnessScore + contrastScore + sharpnessScore) / 3
      in \<lparr> sharpness = toFixed3 sharpnessScore, contrast = toFixed3 contrast',
           brightness = toFixed3 (avgBrightness / 255), qscore = toFixed3 overallScore \<rparr>)"

definition inUnit :: "real \<Rightarrow> bool" where
  "inUnit v = (0 \<le> v \<and> v \<le> 1)"

definition threeDecimals :: "real \<Rightarrow> bool" where
  "threeDecimals v = (real_of_int \<lfloor>v * 1000\<rfloor> = v * 1000)"

text \<open>Every pixel has the colour of the first one.\<close>

definition uniformColor :: "ImageData \<Rightarrow> bool" where
  "uniformColor img =
     (case rgbaPixels (pixelData img) of
        [] \<Rightarrow> True
      | p # ps \<Rightarrow> list_all (\<lambda>q. fst q = fst p \<and> fst (snd q) = fst (snd p)
                               \<and> fst (snd (snd q)) = fst (snd (snd p))) ps)"

definition onePixel :: ImageData where
  "onePixel = \<lparr> width = 1, height = 1, pixelData = [10, 20, 30, 255] \<rparr>"

section \<open>Palette extractor\<close>

text \<open>
  A colour is a triple of numbers. The pixels kept for clustering are those whose alpha
  byte is above 128.
\<close>

type_synonym rgb = "real \<times> real \<times> real"

definition retainedPixels :: "8 word list \<Rightarrow> rgb list" where
  "retainedPixels d =
     map (\<lambda>(r, g, b, a). (real r, real g, real b))
       (filter (\<lambda>(r, g, b, a). a > 128) (rgbaPixels d))"

text \<open>
  \<^verbatim>\<open>[...pixels[Math.floor(Math.random() * pixels.length)]]\<close> for a draw \<open>r\<close> of
  \<^verbatim>\<open>Math.random\<close>: spreading \<^verbatim>\<open>undefined\<close>, which an index outside the array
  gives, throws a TypeError.
\<close>

definition pickIndex :: "rgb list \<Rightarrow> real \<Rightarrow> nat" where
  "pickIndex pixels r = nat \<lfloor>r * real (length pixels)\<rfloor>"

definition pickPixel :: "rgb list \<Rightarrow> real \<Rightarrow> rgb result" where
  "pickPixel pixels r =
     (let idx = pickIndex pixels r
      in if idx < length pixels then Inr (pixels ! idx)
         else Inl (TypeError ''randomPixel is not iterable''))"

fun collect :: "'a result list \<Rightarrow> 'a list result" where
  "collect [] = Inr []"
| "collect (x # xs) =
     (case x of
        Inl e \<Rightarrow> Inl e
      | Inr v \<Rightarrow> (case collect xs of Inl e \<Rightarrow> Inl e | Inr vs \<Rightarrow> Inr (v # vs)))"

definition initCentroids :: "rgb list \<Rightarrow> nat \<Rightarrow> (nat \<Rightarrow> real) \<Rightarrow> rgb list result" where
  "initCentroids pixels k rand = collect (map (\<lambda>i. pickPixel pixels (rand i)) [0 ..< k])"

definition distance3 :: "rgb \<Rightarrow> rgb \<Rightarrow> real" where
  "distance3 p c =
     (case p of (p0, p1, p2) \<Rightarrow> case c of (c0, c1, c2) \<Rightarrow>
        sqrt ((p0 - c0)\<^sup>2 + (p1 - c1)\<^sup>2 + (p2 - c2)\<^sup>2))"

text \<open>
  The scan for the nearest centroid: \<open>j\<close> is the index of the head of the remaining
  centroids, \<open>minDistance\<close> is \<^term>\<open>None\<close> for \<^verbatim>\<open>Infinity\<close>. The comparison is
  strict, so the first of several nearest centroids wins.
\<close>

fun closestFrom :: "rgb \<Rightarrow> rgb list \<Rightarrow> nat \<Rightarrow> real option \<Rightarrow> nat \<Rightarrow> nat" where
  "closestFrom pixel [] j minDistance closestCentroid = closestCentroid"
| "closestFrom pixel (c # cs) j minDistance closestCentroid =
     (if (case minDistance of None \<Rightarrow> True | Some m \<Rightarrow> distance3 pixel c < m)
      then closestFrom pixel cs (j + 1) (Some (distance3 pixel c)) j
      else closestFrom pixel cs (j + 1) minDistance closestCentroid)"

text \<open>\<^verbatim>\<open>clusters[closestCentroid].push(pixel)\<close>; a missing cluster throws.\<close>

definition pushPixel :: "rgb list \<Rightarrow> rgb list list result \<Rightarrow> rgb \<Rightarrow> rgb list list result" where
  "pushPixel centroids acc pixel =
     (case acc of
        Inl e \<Rightarrow> Inl e
      | Inr clusters \<Rightarrow>
          (let c = closestFrom pixel centroids 0 None 0
           in if c < length clusters then Inr (clusters[c := clusters ! c @ [pixel]])
              else Inl (TypeError ''clusters[closestCentroid] is undefined'')))"

definition assignPixels :: "rgb list \<Rightarrow> nat \<Rightarrow> rgb list \<Rightarrow> rgb list list result" where
  "assignPixels pixels k centroids = foldl (pushPixel centroids) (Inr (replicate k [])) pixels"

definition meanColor :: "rgb list \<Rightarrow> rgb" where
  "meanColor cluster =
     (sum_list (map fst cluster) / real (length cluster),
      sum_list (map (\<lambda>p. fst (snd p)) cluster) / real (length cluster),
      sum_list (map (\<lambda>p. snd (snd p)) cluster) / real (length cluster))"

definition recompute :: "rgb list \<Rightarrow> rgb list list \<Rightarrow> rgb list" where
  "recompute centroids clusters =
     map (\<lambda>j. if length (clusters ! j) > 0 then meanColor (clusters ! j) else centroids ! j)
       [0 ..< length centroids]"

fun iterateKMeans :: "nat \<Rightarrow> rgb list \<Rightarrow> nat \<Rightarrow> rgb list \<Rightarrow> rgb list result" where
  "iterateKMeans 0 pixels k centroids = Inr centroids"
| "iterateKMeans (Suc n) pixels k centroids =
     (case assignPixels pixels k centroids of
        Inl e \<Rightarrow> Inl e
      | Inr clusters \<Rightarrow> iterateKMeans n pixels k (recompute centroids clusters))"

text \<open>\<open>rand i\<close> is the \<open>i\<close>-th value \<^verbatim>\<open>Math.random\<close> returns, a number in [0,1).\<close>

definition kMeansClustering :: "rgb list \<Rightarrow> nat \<Rightarrow> (nat \<Rightarrow> real) \<Rightarrow> rgb list result" where
  "kMeansClustering pixels k rand =
     (case initCentroids pixels k rand of
        Inl e \<Rightarrow> Inl e
      | Inr centroids \<Rightarrow> iterateKMeans 20 pixels k centroids)"

definition hexDigit :: "nat \<Rightarrow> char" where
  "hexDigit n = ''0123456789abcdef'' ! n"

function toString16 :: "nat \<Rightarrow> string" where
  "toString16 n = (if n < 16 then [hexDigit n] else toString16 (n div 16) @ [hexDigit (n mod 16)])"
  by pat_completeness auto
termination
  by (relation "measure id") auto

declare toString16.simps [simp del]

definition padStart2 :: "string \<Rightarrow> string" where
  "padStart2 s = replicate (2 - length s) CHR ''0'' @ s"

text \<open>\<^verbatim>\<open>Math.round(c).toString(16).padStart(2, "0")\<close> for a channel \<open>c \<ge> 0\<close>.\<close>

definition channelHex :: "real \<Rightarrow> string" where
  "channelHex c = padStart2 (toString16 (nat \<lfloor>c + 1 / 2\<rfloor>))"

definition colorString :: "rgb \<Rightarrow> string" where
  "colorString color =
     (case color of (r, g, b) \<Rightarrow> ''#'' @ channelHex r @ channelHex g @ channelHex b)"

definition extractColorPalette :: "8 word list \<Rightarrow> (nat \<Rightarrow> real) \<Rightarrow> string list result" where
  "extractColorPalette d rand =
     (case kMeansClustering (retainedPixels d) 5 rand of
        Inl e \<Rightarrow> Inl e
      | Inr palette' \<Rightarrow> Inr (map colorString palette'))"

text \<open>
  Two 150x150 buffers: one fully transparent, one with an opaque black and an opaque
  white pixel followed by transparent ones.
\<close>

definition transparentPixels :: "nat \<Rightarrow> 8 word list" where
  "transparentPixels n = concat (replicate n [0, 0, 0, 0])"

definition transparentBuffer :: "8 word list" where
  "transparentBuffer = transparentPixels 22500"

definition blackWhiteBuffer :: "8 word list" where
  "blackWhiteBuffer = [0, 0, 0, 255, 255, 255, 255, 255] @ transparentPixels 22498"

text \<open>
  A colour whose channels lie in the byte range, and a colour string: \<open>#\<close> followed by
  six hexadecimal digits.
\<close>

definition byteColor :: "rgb \<Rightarrow> bool" where
  "byteColor c = (case c of (r, g, b) \<Rightarrow> 0 \<le> r \<and> r \<le> 255 \<and> 0 \<le> g \<and> g \<le> 255 \<and> 0 \<le> b \<and> b \<le> 255)"

definition isHex :: "char \<Rightarrow> bool" where
  "isHex c = (c \<in> set ''0123456789abcdef'')"

definition hexColor :: "string \<Rightarrow> bool" where
  "hexColor s = (case s of [] \<Rightarrow> False | c # cs \<Rightarrow> c = CHR ''#'' \<and> length cs = 6 \<and> list_all isHex cs)"

text \<open>
  One invocation of the three pixel computations, each on its own canvas buffer, with
  the values \<^verbatim>\<open>Math.random\<close> returns during it.
\<close>

definition pixelStages ::
  "8 word list \<Rightarrow> ImageData \<Rightarrow> 8 word list \<Rightarrow> (nat \<Rightarrow> real)
   \<Rightarrow> string \<times> Quality \<times> string list result" where
  "pixelStages hashBuffer qualityBuffer paletteBuffer rand =
     (generatePHash hashBuffer, analyzeQuality qualityBuffer,
      extractColorPalette paletteBuffer rand)"

section \<open>Analysis orchestrator\<close>

text \<open>
  What the outside answers while one image is analysed: whether the image element loads
  (with its natural size), the result of each provider call should it be made, the
  buffer each canvas read returns (\<open>Inl\<close> when the canvas operation throws), the values
  \<^verbatim>\<open>Math.random\<close> returns to the caption fallback and to the palette, and the
  milliseconds elapsed.
\<close>

record ImageEnv =
  imageLoad :: "(nat \<times> nat) result"
  classifierCall :: "Classification list result"
  captionerCall :: "string option result"
  objectDetectorCall :: "Classification list result"
  nsfwCall :: "NsfwPrediction list result"
  faceCall :: "Face list result"
  ocrCall :: "string result"
  hashCanvas :: "8 word list result"
  qualityCanvas :: "ImageData result"
  paletteCanvas :: "8 word list result"
  captionDraw :: real
  paletteDraws :: "nat \<Rightarrow> real"
  elapsedMs :: nat

definition fallbackClassification :: "FileRef \<Rightarrow> Classification list" where
  "fallbackClassification f =
     (let fileName' = toLowerCase (fileName f)
      in if includesStr fileName' ''selfie'' \<or> includesStr fileName' ''portrait''
         then [\<lparr> label = ''person'', score = 9 / 10 \<rparr>]
         else if includesStr fileName' ''screenshot''
         then [\<lparr> label = ''screenshot'', score = 95 / 100 \<rparr>]
         else if includesStr fileName' ''document''
         then [\<lparr> label = ''document'', score = 85 / 100 \<rparr>]
         else if includesStr fileName' ''food'' then [\<lparr> label = ''food'', score = 8 / 10 \<rparr>]
         else if includesStr fileName' ''nature'' then [\<lparr> label = ''nature'', score = 8 / 10 \<rparr>]
         else [\<lparr> label = ''image'', score = 6 / 10 \<rparr>])"

definition classifyImage :: "Models \<Rightarrow> ImageEnv \<Rightarrow> FileRef \<Rightarrow> Classification list" where
  "classifyImage m env f =
     (if classifier m \<and> \<not> classifierFailed m then
        (case classifierCall env of
           Inr results \<Rightarrow> take 5 results
         | Inl e \<Rightarrow> fallbackClassification f)
      else fallbackClassification f)"

text \<open>The caption is \<^term>\<open>None\<close> only if the draw were outside [0,1).\<close>

definition fallbackCaption :: "ImageEnv \<Rightarrow> string option" where
  "fallbackCaption env =
     (let descriptions = [''A clear and well-composed image'', ''An interesting visual capture'',
                          ''A quality photograph with good details''];
          idx = nat \<lfloor>captionDraw env * 3\<rfloor>
      in if idx < length descriptions then Some (descriptions ! idx) else None)"

definition generateCaption :: "Models \<Rightarrow> ImageEnv \<Rightarrow> string option" where
  "generateCaption m env =
     (if captioner m \<and> \<not> captionerFailed m then
        (case captionerCall env of
           Inr generated \<Rightarrow>
             (case generated of
                None \<Rightarrow> Some ''Unable to generate caption''
              | Some t \<Rightarrow> if t = [] then Some ''Unable to generate caption'' else Some t)
         | Inl e \<Rightarrow> fallbackCaption env)
      else fallbackCaption env)"

definition detectObjects :: "ImageEnv \<Rightarrow> Classification list" where
  "detectObjects env = (case objectDetectorCall env of Inr results \<Rightarrow> results | Inl e \<Rightarrow> [])"

definition fallbackFaceDetection :: "FileRef \<Rightarrow> Face list" where
  "fallbackFaceDetection f =
     (let fileName' = toLowerCase (fileName f)
      in if includesStr fileName' ''selfie'' \<or> includesStr fileName' ''portrait''
         then [\<lparr> age = 25, gender = ''unknown'', expression = ''neutral'', confidence = 8 / 10 \<rparr>]
         else [])"

definition detectFaces :: "Models \<Rightarrow> ImageEnv \<Rightarrow> FileRef \<Rightarrow> Face list" where
  "detectFaces m env f =
     (if \<not> faceDetectionFailed m \<and> faceNetLoaded m then
        (case faceCall env of
           Inr detections \<Rightarrow> detections
         | Inl e \<Rightarrow> fallbackFaceDetection f)
      else fallbackFaceDetection f)"

text \<open>
  \<^verbatim>\<open>String.prototype.trim\<close> removes white space and line terminators at both
  ends; of the code units a \<^typ>\<open>char\<close> can hold these are tab, line feed, vertical
  tab, form feed, carriage return, space and the no-break space U+00A0.
\<close>

definition isSpace :: "char \<Rightarrow> bool" where
  "isSpace c =
     (c \<in> set [CHR '' '', CHR 0x09, CHR 0x0A, CHR 0x0B, CHR 0x0C, CHR 0x0D, CHR 0xA0])"

definition trim :: "string \<Rightarrow> string" where
  "trim t = rev (dropWhile isSpace (rev (dropWhile isSpace t)))"

definition extractText :: "Models \<Rightarrow> ImageEnv \<Rightarrow> string" where
  "extractText m env =
     (if ocr m \<and> \<not> ocrFailed m then
        (case ocrCall env of Inr t \<Rightarrow> trim t | Inl e \<Rightarrow> [])
      else [])"

text \<open>
  The three pixel stages have no handler of their own: an exception of the canvas or of
  the computation leaves the stage.
\<close>

definition hashStage :: "ImageEnv \<Rightarrow> string result" where
  "hashStage env = (case hashCanvas env of Inl e \<Rightarrow> Inl e | Inr d \<Rightarrow> Inr (generatePHash d))"

definition qualityStage :: "ImageEnv \<Rightarrow> Quality result" where
  "qualityStage env =
     (case qualityCanvas env of Inl e \<Rightarrow> Inl e | Inr img \<Rightarrow> Inr (analyzeQuality img))"

definition paletteStage :: "ImageEnv \<Rightarrow> string list result" where
  "paletteStage env =
     (case paletteCanvas env of
        Inl e \<Rightarrow> Inl e
      | Inr d \<Rightarrow> extractColorPalette d (paletteDraws env))"

text \<open>
  The nine statements of the \<^verbatim>\<open>try\<close> block of \<^verbatim>\<open>analyze\<close>, in order; each
  takes the analysis so far and returns it updated, or the exception it throws.
\<close>

definition stages ::
  "Models \<Rightarrow> AiSettings \<Rightarrow> ImageEnv \<Rightarrow> FileRef \<Rightarrow> (ImageAnalysis \<Rightarrow> ImageAnalysis result) list"
  where
  "stages m st env f =
     [\<lambda>a. Inr (if runClassifier st then a\<lparr> classification := Some (classifyImage m env f) \<rparr>
               else a),
      \<lambda>a. Inr (if runCaptioner st then a\<lparr> description := generateCaption m env \<rparr> else a),
      \<lambda>a. Inr (if runObjectDetection st \<and> objectDetector m
               then a\<lparr> objects := Some (detectObjects env) \<rparr> else a),
      \<lambda>a. Inr (if runNsfw st then a\<lparr> nsfw := Some (detectNSFW m (nsfwCall env)) \<rparr> else a),
      \<lambda>a. Inr (if runFaceDetection st then a\<lparr> faces := Some (detectFaces m env f) \<rparr> else a),
      \<lambda>a. Inr (if runOcr st then a\<lparr> ocrText := Some (extractText m env) \<rparr> else a),
      \<lambda>a. if runDuplicateDetection st
           then (case hashStage env of Inl e \<Rightarrow> Inl e | Inr h \<Rightarrow> Inr (a\<lparr> pHash := Some h \<rparr>))
           else Inr a,
      \<lambda>a. if runQualityAnalysis st
           then (case qualityStage env of Inl e \<Rightarrow> Inl e | Inr q \<Rightarrow> Inr (a\<lparr> quality := Some q \<rparr>))
           else Inr a,
      \<lambda>a. if runColorPalette st
           then (case paletteStage env of Inl e \<Rightarrow> Inl e | Inr p \<Rightarrow> Inr (a\<lparr> palette := Some p \<rparr>))
           else Inr a]"

text \<open>
  The \<^verbatim>\<open>try\<close> block with its single \<^verbatim>\<open>catch\<close>: the first exception ends the
  block, the analysis keeps what the earlier statements set and gets the error text.
\<close>

fun runStages :: "(ImageAnalysis \<Rightarrow> ImageAnalysis result) list \<Rightarrow> ImageAnalysis \<Rightarrow> ImageAnalysis"
  where
  "runStages [] a = a"
| "runStages (stage' # rest) a =
     (case stage' a of
        Inr a' \<Rightarrow> runStages rest a'
      | Inl e \<Rightarrow> a\<lparr> error := Some (''Analysis error: '' @ errorText e) \<rparr>)"

text \<open>
  \<^verbatim>\<open>analyze\<close>: it throws before initialization and when the image element does not
  load; otherwise it returns an analysis.
\<close>

definition analyze ::
  "bool \<Rightarrow> Models \<Rightarrow> AiSettings \<Rightarrow> ImageEnv \<Rightarrow> FileRef \<Rightarrow> ImageAnalysis result" where
  "analyze isReady m st env f =
     (if \<not> isReady
      then Inl (ProviderError ''AI Engine not initialized. Call initialize() first.'')
      else case imageLoad env of
             Inl e \<Rightarrow> Inl e
           | Inr dims \<Rightarrow>
               Inr ((runStages (stages m st env f) (blankAnalysis f dims))
                      \<lparr> processingTime := elapsedMs env \<rparr>))"

definition defaultAiSettings :: AiSettings where
  "defaultAiSettings =
     \<lparr> runClassifier = True, runCaptioner = True, runObjectDetection = False, runNsfw = True,
       nsfwThreshold = 7 / 10, runFaceDetection = True, runOcr = True,
       runDuplicateDetection = True, runQualityAnalysis = True, runColorPalette = True \<rparr>"

definition allModels :: Models where
  "allModels =
     \<lparr> classifier = True, classifierFailed = False, captioner = True, captionerFailed = False,
       objectDetector = True, objectDetectorFailed = False, nsfwModel = True,
       nsfwFailed = False, faceNetLoaded = True, faceDetectionFailed = False, ocr = True,
       ocrFailed = False \<rparr>"

definition everyStage :: AiSettings where
  "everyStage =
     \<lparr> runClassifier = True, runCaptioner = True, runObjectDetection = True, runNsfw = True,
       nsfwThreshold = 7 / 10, runFaceDetection = True, runOcr = True,
       runDuplicateDetection = True, runQualityAnalysis = True, runColorPalette = True \<rparr>"

text \<open>
  Sample environments. In the first every provider call throws and the canvas reads
  succeed; the 32x32 buffer of the hash stage holds a black and a white pixel followed
  by transparent ones. In the others a pixel stage throws as well: the canvas read of
  the hash stage; the canvas read of the quality stage, as on a canvas of width 0; the
  palette computation, on a fully transparent buffer.
\<close>

definition hashBuffer :: "8 word list" where
  "hashBuffer = [0, 0, 0, 255, 255, 255, 255, 255] @ transparentPixels 1022"

definition providersThrow :: ImageEnv where
  "providersThrow =
     \<lparr> imageLoad = Inr (640, 480),
       classifierCall = Inl (ProviderError ''inference failed''),
       captionerCall = Inl (ProviderError ''inference failed''),
       objectDetectorCall = Inl (ProviderError ''inference failed''),
       nsfwCall = Inl (ProviderError ''inference failed''),
       faceCall = Inl (ProviderError ''inference failed''),
       ocrCall = Inl (ProviderError ''inference failed''),
       hashCanvas = Inr hashBuffer,
       qualityCanvas = Inr onePixel,
       paletteCanvas = Inr blackWhiteBuffer,
       captionDraw = 0, paletteDraws = (\<lambda>i. 0), elapsedMs = 40 \<rparr>"

definition hashCanvasThrows :: ImageEnv where
  "hashCanvasThrows = providersThrow
     \<lparr> hashCanvas := Inl (DomError ''SecurityError'' ''The operation is insecure.'') \<rparr>"

definition qualityCanvasThrows :: ImageEnv where
  "qualityCanvasThrows = providersThrow
     \<lparr> imageLoad := Inr (0, 0),
       hashCanvas := Inr (transparentPixels 1024),
       qualityCanvas := Inl (DomError ''IndexSizeError''
         ''Index or size is negative or greater than the allowed amount''),
       paletteCanvas := Inr transparentBuffer \<rparr>"

definition paletteThrows :: ImageEnv where
  "paletteThrows = providersThrow \<lparr> paletteCanvas := Inr transparentBuffer \<rparr>"

text \<open>
  The six provider-backed fields of an analysis are what their stages return, fallback
  included, for the stages that are enabled.
\<close>

definition providerFields :: "Models \<Rightarrow> AiSettings \<Rightarrow> ImageEnv \<Rightarrow> FileRef \<Rightarrow> ImageAnalysis \<Rightarrow> bool" where
  "providerFields m st env f a =
     (classification a = (if runClassifier st then Some (classifyImage m env f) else None)
      \<and> description a = (if runCaptioner st then generateCaption m env else None)
      \<and> objects a = (if runObjectDetection st \<and> objectDetector m
                      then Some (detectObjects env) else None)
      \<and> nsfw a = (if runNsfw st then Some (detectNSFW m (nsfwCall env)) else None)
      \<and> faces a = (if runFaceDetection st then Some (detectFaces m env f) else None)
      \<and> ocrText a = (if runOcr st then Some (extractText m env) else None))"


section \<open>Batch processor\<close>

text \<open>
  The state of \<^verbatim>\<open>useImageOrganizer\<close>: the React state variables and the abort
  controller held in the ref (\<^term>\<open>None\<close> for \<^verbatim>\<open>null\<close>, otherwise its
  \<^verbatim>\<open>signal.aborted\<close>). Message texts, tags, timestamps and the compatibility
  fields copied into a stored analysis are left out. \<^verbatim>\<open>categorized\<close> is one object
  mutated in place in the source; the model copies it at each \<^verbatim>\<open>setStats\<close>.
\<close>

datatype Status = Idle | Loading | Processing | Complete | Failed

datatype Stage = Upload | Analysis | ClassificationStage | Organization | StageComplete

record ProcessingProgress =
  current :: nat
  progressTotal :: nat
  status :: Status
  currentFile :: "string option"
  stage :: Stage

record ProcessingStats =
  total :: nat
  processed :: nat
  successful :: nat
  errors :: nat
  categorized :: "ImageCategory \<rightharpoonup> nat"
  avgProcessingTime :: "real option"
  endTimeSet :: bool

record ImageFile =
  imageId :: string
  imageFile :: FileRef
  name :: string
  isProcessed :: bool
  analysis :: "ImageAnalysis option"
  category :: "ImageCategory option"

record OrganizeOptions =
  autoRename :: bool
  findDuplicates :: bool

text \<open>
  A merge suggestion; its deferred action reassigns \<open>mergeTargets\<close>
  (\<^verbatim>\<open>group.slice(1)\<close>) to the category duplicates.
\<close>

record SmartSuggestion =
  suggestionConfidence :: real
  imageIds :: "string list"
  mergeTargets :: "string list"

record HookState =
  images :: "ImageFile list"
  progress :: ProcessingProgress
  stats :: ProcessingStats
  suggestions :: "SmartSuggestion list"
  isProcessing :: bool
  abortController :: "bool option"

text \<open>
  What the outside answers for one image in flight: the result of
  \<^verbatim>\<open>await aiEngine.analyzeImage\<close> (\<open>Inl\<close> a rejection), the name
  \<^verbatim>\<open>generateSmartFilename\<close> makes (it reads the date and \<^verbatim>\<open>Math.random\<close>)
  and the milliseconds elapsed.
\<close>

record ImageRun =
  analyzeResult :: "ImageAnalysis result"
  smartFilename :: string
  elapsed :: nat

text \<open>The loop's local counters.\<close>

record Locals =
  nProcessed :: nat
  nSuccessful :: nat
  nErrors :: nat
  counts :: "ImageCategory \<rightharpoonup> nat"
  processingTimes :: "nat list"

definition signalAborted :: "HookState \<Rightarrow> bool" where
  "signalAborted s = (case abortController s of None \<Rightarrow> False | Some a \<Rightarrow> a)"

text \<open>\<^verbatim>\<open>stopProcessing\<close>, setter by setter; the states it passes through, in order.\<close>

definition stopProcessing :: "HookState \<Rightarrow> HookState list" where
  "stopProcessing s =
     (let s1 = s\<lparr> abortController := map_option (\<lambda>_. True) (abortController s) \<rparr>;
          s2 = s1\<lparr> isProcessing := False \<rparr>;
          s3 = s2\<lparr> progress := (progress s2)\<lparr> status := Idle \<rparr> \<rparr>
      in [s1, s2, s3])"

definition stubAnalysis :: "ImageFile \<Rightarrow> jsError \<Rightarrow> ImageAnalysis" where
  "stubAnalysis img e =
     (blankAnalysis (imageFile img) (0, 0)) \<lparr> error := Some (''Processing failed: '' @ errorText e) \<rparr>"

definition updateImage :: "string \<Rightarrow> (ImageFile \<Rightarrow> ImageFile) \<Rightarrow> HookState \<Rightarrow> HookState" where
  "updateImage i f s = s\<lparr> images := map (\<lambda>img. if imageId img = i then f img else img) (images s) \<rparr>"

definition average :: "nat list \<Rightarrow> real option" where
  "average ts = (if ts = [] then None else Some (real (sum_list ts) / real (length ts)))"

definition bumpCount :: "(ImageCategory \<rightharpoonup> nat) \<Rightarrow> ImageCategory \<Rightarrow> (ImageCategory \<rightharpoonup> nat)" where
  "bumpCount m c = m(c \<mapsto> (case m c of None \<Rightarrow> 0 | Some n \<Rightarrow> n) + 1)"

text \<open>
  The body of the \<^verbatim>\<open>try\<close> after the await, and the \<^verbatim>\<open>catch\<close>: each returns
  the new counters and the new state.
\<close>

definition onAnalyzed ::
  "OrganizeOptions \<Rightarrow> ImageFile \<Rightarrow> ImageRun \<Rightarrow> ImageAnalysis \<Rightarrow> Locals \<Rightarrow> HookState
   \<Rightarrow> Locals \<times> HookState" where
  "onAnalyzed opts image' run a l s =
     (let cat = categorizeImage a;
          smartName = (if autoRename opts then smartFilename run else name image')
      in (l\<lparr> counts := bumpCount (counts l) cat, nSuccessful := nSuccessful l + 1,
             processingTimes := processingTimes l @ [elapsed run] \<rparr>,
          updateImage (imageId image')
            (\<lambda>img. img\<lparr> analysis := Some a, category := Some cat, name := smartName,
                         isProcessed := True \<rparr>) s))"

definition onFailed :: "ImageFile \<Rightarrow> jsError \<Rightarrow> Locals \<Rightarrow> HookState \<Rightarrow> Locals \<times> HookState" where
  "onFailed image' e l s =
     (l\<lparr> nErrors := nErrors l + 1 \<rparr>,
      updateImage (imageId image')
        (\<lambda>img. img\<lparr> isProcessed := True, analysis := Some (stubAnalysis img e) \<rparr>) s)"

definition mergeSuggestion :: "DuplicateGroup \<Rightarrow> SmartSuggestion" where
  "mergeSuggestion g =
     \<lparr> suggestionConfidence = similarity g, imageIds = group g, mergeTargets = drop 1 (group g) \<rparr>"

text \<open>
  The duplicate step reads \<^verbatim>\<open>images\<close> of the closure, that is the collection as
  it was when \<^verbatim>\<open>processImages\<close> was called.
\<close>

definition findDuplicatesStep :: "ImageFile list \<Rightarrow> HookState \<Rightarrow> HookState list" where
  "findDuplicatesStep snapshot s =
     (let s1 = s\<lparr> progress := (progress s)\<lparr> stage := Organization \<rparr> \<rparr>;
          withAnalysis = concat (map (\<lambda>img. case analysis img of
                                     None \<Rightarrow> []
                                   | Some a \<Rightarrow> if isProcessed img then [(imageId img, a)] else [])
                                  snapshot);
          duplicateGroups = findSimilarImages withAnalysis;
          s2 = s1\<lparr> suggestions := suggestions s1 @ map mergeSuggestion duplicateGroups \<rparr>
      in [s1, s2])"

definition startLocals :: Locals where
  "startLocals = \<lparr> nProcessed = 0, nSuccessful = 0, nErrors = 0, counts = Map.empty,
                   processingTimes = [] \<rparr>"

text \<open>
  \<^verbatim>\<open>processImages\<close> is an async function: a call runs until the
  \<^verbatim>\<open>await\<close> of the first image's analysis, and each time the awaited analysis
  returns it runs on to the next \<^verbatim>\<open>await\<close> or to its end. In between, the hook
  takes other calls: \<^verbatim>\<open>stopProcessing\<close>, and \<^verbatim>\<open>processImages\<close> again,
  which passes the guard once \<^verbatim>\<open>stopProcessing\<close> has reset
  \<^verbatim>\<open>isProcessing\<close>. An activation is one such suspended call: what its closure
  captured (the collection, the options), the number of images it set out to process,
  its counters, the image in flight and the images after it. All activations share the
  hook's state and the ref that holds the abort controller.
\<close>

record RunFrame =
  closureImages :: "ImageFile list"
  closureOptions :: OrganizeOptions
  unprocessedCount :: nat

record Activation =
  frame :: RunFrame
  locals :: Locals
  inFlight :: ImageFile
  queued :: "ImageFile list"

text \<open>
  The code after the loop; it runs whether the loop ended or was left by
  \<^verbatim>\<open>break\<close>. The states passed through, in order.
\<close>

definition afterLoop :: "RunFrame \<Rightarrow> Locals \<Rightarrow> HookState \<Rightarrow> HookState list" where
  "afterLoop f l s =
     (let dup = (if findDuplicates (closureOptions f)
                 then findDuplicatesStep (closureImages f) s else []);
          s5 = last (s # dup);
          s6 = s5\<lparr> progress := \<lparr> current = nProcessed l, progressTotal = unprocessedCount f,
                                   status = Complete, currentFile = None, stage = StageComplete \<rparr> \<rparr>;
          s7 = s6\<lparr> stats := (stats s6)\<lparr> endTimeSet := True \<rparr> \<rparr>;
          s8 = s7\<lparr> isProcessing := False \<rparr>
      in dup @ [s6, s7, s8])"

text \<open>
  The head of the \<^verbatim>\<open>for\<close> loop with the images still to do: the
  \<^verbatim>\<open>break\<close> on the signal of the controller the ref holds now, else the progress
  update and the suspension at the \<^verbatim>\<open>await\<close>. It returns the activation, if the
  call is suspended, and the states passed through.
\<close>

definition loopHead ::
  "RunFrame \<Rightarrow> Locals \<Rightarrow> ImageFile list \<Rightarrow> HookState \<Rightarrow> Activation option \<times> HookState list"
  where
  "loopHead f l todo s =
     (case todo of
        [] \<Rightarrow> (None, afterLoop f l s)
      | image' # rest \<Rightarrow>
          if signalAborted s then (None, afterLoop f l s)
          else (Some \<lparr> frame = f, locals = l, inFlight = image', queued = rest \<rparr>,
                [s\<lparr> progress := (progress s)\<lparr> current := nProcessed l + 1,
                                                currentFile := Some (name image') \<rparr> \<rparr>]))"

text \<open>
  A call of \<^verbatim>\<open>processImages\<close>, through the callback of the latest render, up to
  its first \<^verbatim>\<open>await\<close>. Nothing happens when a run is marked in progress or the
  collection is empty.
\<close>

definition processImages ::
  "OrganizeOptions \<Rightarrow> HookState \<Rightarrow> Activation option \<times> HookState list" where
  "processImages opts s =
     (if isProcessing s \<or> images s = [] then (None, [])
      else
        let s1 = s\<lparr> isProcessing := True, abortController := Some False \<rparr>;
            unprocessedImages = filter (\<lambda>img. \<not> isProcessed img) (images s);
            s2 = s1\<lparr> progress := \<lparr> current = 0, progressTotal = length unprocessedImages,
                                     status = Processing, currentFile = None, stage = Analysis \<rparr> \<rparr>;
            s3 = s2\<lparr> stats := \<lparr> total = length unprocessedImages, processed = 0, successful = 0,
                                errors = 0, categorized = Map.empty,
                                avgProcessingTime = Some 0, endTimeSet = False \<rparr> \<rparr>;
            f = \<lparr> closureImages = images s, closureOptions = opts,
                  unprocessedCount = length unprocessedImages \<rparr>;
            (next, tr) = loopHead f startLocals unprocessedImages s3
        in (next, [s1, s2, s3] @ tr))"

text \<open>
  The awaited analysis of an activation returns: the \<^verbatim>\<open>try\<close> or the
  \<^verbatim>\<open>catch\<close>, \<^verbatim>\<open>processed++\<close>, \<^verbatim>\<open>setStats\<close>, then the loop head
  for the images after.
\<close>

definition resumeProcessImages ::
  "Activation \<Rightarrow> ImageRun \<Rightarrow> HookState \<Rightarrow> Activation option \<times> HookState list" where
  "resumeProcessImages r run s =
     (let (l3, s3) = (case analyzeResult run of
                        Inr a \<Rightarrow>
                          onAnalyzed (closureOptions (frame r)) (inFlight r) run a (locals r) s
                      | Inl e \<Rightarrow> onFailed (inFlight r) e (locals r) s);
          l4 = l3\<lparr> nProcessed := nProcessed l3 + 1 \<rparr>;
          s4 = s3\<lparr> stats := (stats s3)\<lparr> processed := nProcessed l4,
                                          successful := nSuccessful l4, errors := nErrors l4,
                                          categorized := counts l4,
                                          avgProcessingTime := average (processingTimes l4) \<rparr> \<rparr>;
          (next, tr) = loopHead (frame r) l4 (queued r) s4
      in (next, [s3, s4] @ tr))"

text \<open>
  The hook with its suspended activations, and what happens to it: a call of
  \<^verbatim>\<open>processImages\<close>, a call of \<^verbatim>\<open>stopProcessing\<close>, or the analysis awaited
  by the \<open>k\<close>-th activation returning. A step returns the new hook and the states passed
  through, in order.
\<close>

record Hook =
  hookState :: HookState
  active :: "Activation list"

datatype HookEvent = ProcessImages OrganizeOptions | StopProcessing | Analyzed nat ImageRun

definition settle :: "nat \<Rightarrow> Activation option \<Rightarrow> Activation list \<Rightarrow> Activation list" where
  "settle k next rs = (case next of None \<Rightarrow> take k rs @ drop (k + 1) rs | Some r \<Rightarrow> rs[k := r])"

fun hookStep :: "HookEvent \<Rightarrow> Hook \<Rightarrow> Hook \<times> HookState list" where
  "hookStep (ProcessImages opts) h =
     (case processImages opts (hookState h) of
        (next, tr) \<Rightarrow>
          (\<lparr> hookState = last (hookState h # tr),
             active = active h @ (case next of None \<Rightarrow> [] | Some r \<Rightarrow> [r]) \<rparr>, tr))"
| "hookStep StopProcessing h =
     (h\<lparr> hookState := last (hookState h # stopProcessing (hookState h)) \<rparr>,
      stopProcessing (hookState h))"
| "hookStep (Analyzed k run) h =
     (if k < length (active h)
      then case resumeProcessImages (active h ! k) run (hookState h) of
             (next, tr) \<Rightarrow>
               (\<lparr> hookState = last (hookState h # tr), active = settle k next (active h) \<rparr>, tr)
      else (h, []))"

fun runEvents :: "HookEvent list \<Rightarrow> Hook \<Rightarrow> Hook \<times> HookState list" where
  "runEvents [] h = (h, [])"
| "runEvents (e # es) h =
     (case hookStep e h of
        (h1, tr1) \<Rightarrow> (case runEvents es h1 of (h2, tr2) \<Rightarrow> (h2, tr1 @ tr2)))"

definition finalState :: "HookState \<Rightarrow> HookState list \<Rightarrow> HookState" where
  "finalState s tr = last (s # tr)"

text \<open>The hook's state at mount, with a given collection.\<close>

definition initialState :: "ImageFile list \<Rightarrow> HookState" where
  "initialState imgs =
     \<lparr> images = imgs,
       progress = \<lparr> current = 0, progressTotal = 0, status = Idle, currentFile = None,
                    stage = Upload \<rparr>,
       stats = \<lparr> total = 0, processed = 0, successful = 0, errors = 0, categorized = Map.empty,
                 avgProcessingTime = Some 0, endTimeSet = False \<rparr>,
       suggestions = [], isProcessing = False, abortController = None \<rparr>"

definition statsInvariant :: "ProcessingStats \<Rightarrow> bool" where
  "statsInvariant st = (processed st = successful st + errors st \<and> processed st \<le> total st)"

definition newImage :: "string \<Rightarrow> ImageFile" where
  "newImage i = \<lparr> imageId = i, imageFile = \<lparr> fileName = i, fileSize = 2048 \<rparr>, name = i,
                  isProcessed = False, analysis = None, category = None \<rparr>"

definition defaultOptions :: OrganizeOptions where
  "defaultOptions = \<lparr> autoRename = True, findDuplicates = True \<rparr>"

definition plainRun :: ImageRun where
  "plainRun = \<lparr> analyzeResult = Inr (hashed ''1010''), smartFilename = ''general_image.jpg'',
                elapsed = 40 \<rparr>"

definition queue5 :: "ImageFile list" where
  "queue5 = map newImage [''img1'', ''img2'', ''img3'', ''img4'', ''img5'']"

text \<open>The hook at mount with a given collection and no call under way.\<close>

definition mounted :: "ImageFile list \<Rightarrow> Hook" where
  "mounted imgs = \<lparr> hookState = initialState imgs, active = [] \<rparr>"

text \<open>
  Scenario D: five queued images; the first is analysed, \<^verbatim>\<open>stopProcessing\<close> is
  called while the second is in flight, then the second analysis returns.
\<close>

definition cancelledRun :: "HookState list" where
  "cancelledRun =
     snd (runEvents [ProcessImages defaultOptions, Analyzed 0 plainRun, StopProcessing,
                     Analyzed 0 plainRun] (mounted queue5))"

text \<open>
  The same, but \<^verbatim>\<open>processImages\<close> is called again before the second analysis
  returns; the first call then gets the results of its four remaining analyses, the
  second call still awaiting its first.
\<close>

definition restartedRun :: "HookState list" where
  "restartedRun =
     snd (runEvents [ProcessImages defaultOptions, Analyzed 0 plainRun, StopProcessing,
                     ProcessImages defaultOptions, Analyzed 0 plainRun, Analyzed 0 plainRun,
                     Analyzed 0 plainRun, Analyzed 0 plainRun] (mounted queue5))"

text \<open>
  The two halves of the statistics invariant apart, for a state and for the counters of
  an activation; two states with the same four counts.
\<close>

definition sumsAgree :: "HookState \<Rightarrow> bool" where
  "sumsAgree s = (processed (stats s) = successful (stats s) + errors (stats s))"

definition localsAgree :: "Locals \<Rightarrow> bool" where
  "localsAgree l = (nProcessed l = nSuccessful l + nErrors l)"

definition sameCounts :: "HookState \<Rightarrow> HookState \<Rightarrow> bool" where
  "sameCounts s s' =
     (total (stats s') = total (stats s) \<and> processed (stats s') = processed (stats s)
      \<and> successful (stats s') = successful (stats s) \<and> errors (stats s') = errors (stats s))"

text \<open>
  Every activation's counters add up, and so do the statistics.
\<close>

definition agreeing :: "Hook \<Rightarrow> bool" where
  "agreeing h =
     (sumsAgree (hookState h) \<and> list_all (\<lambda>r. localsAgree (locals r)) (active h))"

text \<open>
  A schedule in which \<^verbatim>\<open>processImages\<close> is only called while no earlier call is
  suspended, and the condition under which such a schedule keeps the whole invariant:
  at most one activation, whose images done and still to do fit in \<open>total\<close>.
\<close>

fun serial :: "Hook \<Rightarrow> HookEvent list \<Rightarrow> bool" where
  "serial h [] = True"
| "serial h (e # es) =
     ((case e of ProcessImages opts \<Rightarrow> active h = [] | StopProcessing \<Rightarrow> True
               | Analyzed k run \<Rightarrow> True)
      \<and> serial (fst (hookStep e h)) es)"

definition underWay :: "Hook \<Rightarrow> bool" where
  "underWay h =
     (statsInvariant (stats (hookState h))
      \<and> (case active h of
            [] \<Rightarrow> True
          | r # rs \<Rightarrow> rs = [] \<and> localsAgree (locals r)
                      \<and> nProcessed (locals r) + 1 + length (queued r)
                          \<le> total (stats (hookState h))))"

text \<open>The four counts of a state: total, processed, successful, errors.\<close>

definition counters :: "HookState \<Rightarrow> nat \<times> nat \<times> nat \<times> nat" where
  "counters s = (total (stats s), processed (stats s), successful (stats s), errors (stats s))"

section \<open>Categorizer: properties\<close>

lemma includesStr_image:
  "labelCategory (toLowerCase ''image'') = None"
  by (simp add: labelCategory_def toLowerCase_def lowerChar_def)

lemma noLabelMatch_top:
  "noLabelMatch a \<Longrightarrow> topLabelCategory a = None"
  by (auto simp: noLabelMatch_def topLabelCategory_def split: option.splits list.splits)

lemma categorizeImage_rule4:
  assumes "noFaces a" and "shortText a" and "topLabelCategory a = None"
  shows "categorizeImage a = (if nsfwFlagged a then Nsfw else General)"
  using assms
  by (auto simp: categorizeImage_def noFaces_def shortText_def hasFaces_def longText_def
      split: option.splits)

text \<open>
  C3. An analysis whose face list is non-empty is categorized \<^term>\<open>Selfies\<close>, whatever
  its NSFW predictions, classification labels and OCR text are.
\<close>

theorem categorizeImage_faces_selfies:
  assumes "faces a = Some fs" and "fs \<noteq> []"
  shows "categorizeImage a = Selfies"
  using assms by (simp add: categorizeImage_def hasFaces_def)

theorem categorizeImage_faces_selfies_witness:
  "categorizeImage
     ((blankAnalysis sampleFile (640, 480))
        \<lparr> classification := Some [\<lparr> label = ''landscape'', score = 9 / 10 \<rparr>],
          nsfw := Some [\<lparr> className = Porn, probability = 99 / 100 \<rparr>],
          faces := Some [sampleFace],
          ocrText := Some (replicate 120 CHR ''x'') \<rparr>) = Selfies"
  by (rule categorizeImage_faces_selfies [where fs = "[sampleFace]"])
     (simp_all add: blankAnalysis_def)

text \<open>
  Scenario B: no faces and an OCR text of more than 50 characters give
  \<^term>\<open>Documents\<close>.
\<close>

lemma long_text_documents:
  assumes "noFaces a" and "ocrText a = Some t" and "length t > 50"
  shows "categorizeImage a = Documents"
  using assms
  by (auto simp: categorizeImage_def noFaces_def hasFaces_def longText_def split: option.splits)

lemma long_text_documents_example:
  "categorizeImage ((blankAnalysis sampleFile (640, 480))
      \<lparr> nsfw := Some [], faces := Some [], ocrText := Some (replicate 120 CHR ''x'') \<rparr>) = Documents"
  by (rule long_text_documents [where t = "replicate 120 CHR ''x''"])
     (simp_all add: noFaces_def blankAnalysis_def)

text \<open>
  C5 (as amended). Rule 4 compares with the fixed 0.7 and never reads the configuration
  record: for every configuration, an analysis with no faces, short text and no matching
  label is categorized \<^term>\<open>Nsfw\<close> exactly when some prediction has probability above
  0.7, whatever \<open>nsfwThreshold\<close> is.
\<close>

theorem categorizeImage_fixed_threshold:
  assumes "noFaces a" and "shortText a" and "noLabelMatch a"
  shows "(categorizeImage a = Nsfw) = somePredictionAbove (7 / 10) a"
  using categorizeImage_rule4 [OF assms(1,2) noLabelMatch_top [OF assms(3)]]
  by (simp add: nsfwFlagged_def somePredictionAbove_def)

theorem categorizeImage_fixed_threshold_witness:
  "(categorizeImage suggestive = Nsfw) = somePredictionAbove (7 / 10) suggestive
   \<and> categorizeImage suggestive = General"
proof -
  have 1: "noFaces suggestive" and 2: "shortText suggestive"
    by (simp_all add: noFaces_def shortText_def suggestive_def blankAnalysis_def)
  have 3: "noLabelMatch suggestive"
    by (simp add: noLabelMatch_def suggestive_def blankAnalysis_def includesStr_image)
  have "\<not> somePredictionAbove (7 / 10) suggestive"
    by (simp add: somePredictionAbove_def suggestive_def blankAnalysis_def)
  with categorizeImage_fixed_threshold [OF 1 2 3] categorizeImage_rule4 [OF 1 2 noLabelMatch_top [OF 3]]
  show ?thesis
    by (simp add: nsfwFlagged_def somePredictionAbove_def)
qed

text \<open>
  The claim as stated fails: with \<open>nsfwThreshold = 0.5\<close> and a single prediction of
  probability 0.6 (above the configured threshold), the image is \<^term>\<open>General\<close>.
\<close>

theorem nsfwThreshold_override_counterexample:
  "nsfwThreshold lowThreshold = 1 / 2
   \<and> noFaces suggestive \<and> shortText suggestive \<and> noLabelMatch suggestive
   \<and> somePredictionAbove (nsfwThreshold lowThreshold) suggestive
   \<and> categorizeImage suggestive \<noteq> Nsfw"
proof -
  have 1: "noFaces suggestive" and 2: "shortText suggestive"
    by (simp_all add: noFaces_def shortText_def suggestive_def blankAnalysis_def)
  have 3: "noLabelMatch suggestive"
    by (simp add: noLabelMatch_def suggestive_def blankAnalysis_def includesStr_image)
  have 4: "somePredictionAbove (nsfwThreshold lowThreshold) suggestive"
    by (simp add: somePredictionAbove_def suggestive_def blankAnalysis_def lowThreshold_def)
  have "\<not> nsfwFlagged suggestive"
    by (simp add: nsfwFlagged_def suggestive_def blankAnalysis_def)
  with categorizeImage_rule4 [OF 1 2 noLabelMatch_top [OF 3]]
  have 5: "categorizeImage suggestive \<noteq> Nsfw" by simp
  show ?thesis using 1 2 3 4 5 by (simp add: lowThreshold_def)
qed

text \<open>
  C10. With the NSFW model unavailable \<^verbatim>\<open>detectNSFW\<close> returns the single prediction
  Neutral at 0.95, and every analysis carrying it that has no faces, an OCR text of at
  most 50 characters and no matching label is categorized \<^term>\<open>Nsfw\<close>, not
  \<^term>\<open>General\<close>.
\<close>

theorem fallback_nsfw_categorized_nsfw:
  assumes "\<not> (nsfwModel m \<and> \<not> nsfwFailed m)"
  shows "detectNSFW m classify = [\<lparr> className = Neutral, probability = 95 / 100 \<rparr>]
         \<and> (\<forall>a. nsfw a = Some (detectNSFW m classify) \<and> noFaces a \<and> shortText a
                  \<and> noLabelMatch a \<longrightarrow> categorizeImage a = Nsfw)"
proof -
  have d: "detectNSFW m classify = [\<lparr> className = Neutral, probability = 95 / 100 \<rparr>]"
    using assms by (auto simp: detectNSFW_def fallbackNsfw_def)
  have "categorizeImage a = Nsfw"
    if "nsfw a = Some (detectNSFW m classify)" "noFaces a" "shortText a" "noLabelMatch a" for a
    using categorizeImage_rule4 [OF that(2,3) noLabelMatch_top [OF that(4)]] that(1) d
    by (simp add: nsfwFlagged_def)
  with d show ?thesis by blast
qed

theorem fallback_nsfw_categorized_nsfw_witness:
  "detectNSFW noModels (Inl (ProviderError ''not loaded''))
     = [\<lparr> className = Neutral, probability = 95 / 100 \<rparr>]
   \<and> categorizeImage plainFallback = Nsfw"
proof -
  have u: "\<not> (nsfwModel noModels \<and> \<not> nsfwFailed noModels)"
    by (simp add: noModels_def)
  have 1: "noFaces plainFallback" and 2: "shortText plainFallback"
    by (simp_all add: noFaces_def shortText_def plainFallback_def blankAnalysis_def)
  have 3: "noLabelMatch plainFallback"
    by (simp add: noLabelMatch_def plainFallback_def blankAnalysis_def includesStr_image)
  have 4: "nsfw plainFallback = Some (detectNSFW noModels (Inl (ProviderError ''not loaded'')))"
    by (simp add: plainFallback_def blankAnalysis_def)
  from fallback_nsfw_categorized_nsfw [OF u, of "Inl (ProviderError ''not loaded'')"] 1 2 3 4
  show ?thesis by blast
qed

section \<open>Duplicate grouper: properties\<close>

lemma groupFrom_keeps: "g \<in> set acc \<Longrightarrow> g \<in> set (groupFrom imgs seen acc)"
  by (induction imgs arbitrary: seen acc)
     (simp_all add: case_prod_beta split: option.split)

lemma scanRest_eq:
  "distinct (map fst rest) \<Longrightarrow>
   scanRest hash1 rest (grp, seen) =
     (grp @ map fst (filter (joins hash1 seen) rest),
      seen \<union> set (map fst (filter (joins hash1 seen) rest)))"
proof (induction rest arbitrary: grp seen)
  case Nil
  then show ?case by simp
next
  case (Cons img rest)
  have "fst x \<noteq> fst img" if "x \<in> set rest" for x
  proof -
    from Cons.prems have "fst img \<notin> fst ` set rest" by simp
    with that show ?thesis by (metis imageI)
  qed
  then have *: "filter (joins hash1 (insert (fst img) seen)) rest = filter (joins hash1 seen) rest"
    by (intro filter_cong) (auto simp: joins_def)
  from Cons.prems have d: "distinct (map fst rest)" by simp
  show ?case
  proof (cases "joins hash1 seen img")
    case True
    then have "scanRest hash1 (img # rest) (grp, seen)
               = scanRest hash1 rest (grp @ [fst img], insert (fst img) seen)"
      by (auto simp: joins_def split: option.splits)
    then show ?thesis using Cons.IH [OF d] * True by simp
  next
    case False
    then have "scanRest hash1 (img # rest) (grp, seen) = scanRest hash1 rest (grp, seen)"
      by (auto simp: joins_def split: option.splits)
    then show ?thesis using Cons.IH [OF d] False by simp
  qed
qed

lemma groupFrom_wellformed:
  "list_all (\<lambda>g. length (group g) \<ge> 2 \<and> similarity g = 9 / 10) acc \<Longrightarrow>
   list_all (\<lambda>g. length (group g) \<ge> 2 \<and> similarity g = 9 / 10) (groupFrom imgs seen acc)"
  by (induction imgs arbitrary: seen acc)
     (simp_all add: case_prod_beta split: option.split)

lemma similarity_one:
  assumes "calculateHashSimilarity h1 h2 = 1"
  shows "h1 = h2 \<and> h1 \<noteq> []"
proof -
  have len: "length h1 = length h2" and q: "real (matchCount h1 h2) / real (length h1) = 1"
    using assms by (auto simp: calculateHashSimilarity_def split: if_splits)
  from q have ne: "h1 \<noteq> []" by (auto simp: matchCount_def)
  with q have "matchCount h1 h2 = length h1" by simp
  then have "length (filter (\<lambda>(c, d). c = d) (zip h1 h2)) = length (zip h1 h2)"
    using len by (simp add: matchCount_def)
  then have "\<forall>p \<in> set (zip h1 h2). fst p = snd p"
    by (metis (mono_tags, lifting) case_prod_unfold filter_id_conv length_filter_less less_irrefl_nat)
  with len have "h1 = h2"
    by (induction h1 h2 rule: list_induct2) auto
  with ne show ?thesis by auto
qed

lemma similarity_self: "h \<noteq> [] \<Longrightarrow> calculateHashSimilarity h h = 1"
  by (simp add: calculateHashSimilarity_def matchCount_def zip_same_conv_map filter_map comp_def)

lemma joined_iff:
  assumes "distinct (map fst rest)" and "a \<in> set rest"
  shows "fst a \<in> set (map fst (filter Q rest)) \<longleftrightarrow> Q a"
proof -
  from assms(1) have "inj_on fst (set rest)" by (simp add: distinct_map)
  with assms(2) show ?thesis by (auto simp: inj_on_def)
qed

lemma leader_group:
  assumes d: "distinct (map fst (a # rest))" and b: "b \<in> set rest"
    and pa: "fst a \<notin> seen" and pb: "fst b \<notin> seen"
    and ha: "truthyHash (snd a) = Some h" and hb: "truthyHash (snd b) = Some h"
  shows "\<exists>g \<in> set (groupFrom (a # rest) seen acc).
           fst a \<in> set (group g) \<and> fst b \<in> set (group g)"
proof -
  from d have dr: "distinct (map fst rest)" by simp
  let ?J = "map fst (filter (joins h seen) rest)"
  from ha have "h \<noteq> []" by (auto simp: truthyHash_def split: option.splits if_splits)
  then have "joins h seen b"
    using pb hb by (simp add: joins_def similarity_self)
  then have bJ: "fst b \<in> set ?J" using joined_iff [OF dr b] by simp
  have "?J \<noteq> []"
  proof
    assume "?J = []"
    with bJ show False by (simp only: list.set empty_iff)
  qed
  then have len: "length (fst a # ?J) > 1" by (cases ?J) auto
  let ?g = "\<lparr> group = fst a # ?J, similarity = 9 / 10 \<rparr>"
  have "groupFrom (a # rest) seen acc
        = groupFrom rest ((seen \<union> set ?J) \<union> set (fst a # ?J)) (acc @ [?g])"
    using pa ha len by (simp add: scanRest_eq [OF dr])
  moreover have "?g \<in> set (groupFrom rest ((seen \<union> set ?J) \<union> set (fst a # ?J)) (acc @ [?g]))"
    by (rule groupFrom_keeps) simp
  ultimately have "?g \<in> set (groupFrom (a # rest) seen acc)" by simp
  moreover have "fst a \<in> set (group ?g) \<and> fst b \<in> set (group ?g)" using bJ by simp
  ultimately show ?thesis by blast
qed

lemma groupFrom_identical:
  assumes "distinct (map fst imgs)" and "a \<in> set imgs" and "b \<in> set imgs"
    and "fst a \<noteq> fst b" and "fst a \<notin> seen" and "fst b \<notin> seen"
    and "truthyHash (snd a) = Some h" and "truthyHash (snd b) = Some h"
  shows "\<exists>g \<in> set (groupFrom imgs seen acc).
           fst a \<in> set (group g) \<and> fst b \<in> set (group g)"
  using assms
proof (induction imgs arbitrary: seen acc)
  case Nil
  then show ?case by simp
next
  case (Cons img rest)
  from Cons.prems(1) have dr: "distinct (map fst rest)" by simp
  consider (a) "img = a" | (b) "img = b" | (other) "img \<noteq> a" "img \<noteq> b" by blast
  then show ?case
  proof cases
    case a
    with Cons.prems have "b \<in> set rest" by auto
    from leader_group [OF Cons.prems(1) [unfolded a] this Cons.prems(5,6,7,8)]
    show ?thesis using a by simp
  next
    case b
    with Cons.prems have "a \<in> set rest" by auto
    from leader_group [OF Cons.prems(1) [unfolded b] this Cons.prems(6,5,8,7)]
    show ?thesis unfolding b by blast
  next
    case other
    with Cons.prems have ar: "a \<in> set rest" and br: "b \<in> set rest" by auto
    from Cons.prems(1) ar br have na: "fst a \<noteq> fst img" and nb: "fst b \<noteq> fst img"
      by (auto simp: image_iff)
    note IH = Cons.IH [OF dr ar br Cons.prems(4) _ _ Cons.prems(7,8)]
    show ?thesis
    proof (cases "fst img \<in> seen \<or> truthyHash (snd img) = None")
      case True
      then have "groupFrom (img # rest) seen acc = groupFrom rest seen acc"
        by auto
      with IH [OF Cons.prems(5,6)] show ?thesis by simp
    next
      case False
      then obtain h1 where h1: "truthyHash (snd img) = Some h1" and pi: "fst img \<notin> seen"
        by auto
      let ?J = "map fst (filter (joins h1 seen) rest)"
      have same: "joins h1 seen a \<longleftrightarrow> joins h1 seen b"
        using Cons.prems(5,6,7,8) by (simp add: joins_def)
      show ?thesis
      proof (cases "joins h1 seen a")
        case True
        with same have aJ: "fst a \<in> set ?J" and bJ: "fst b \<in> set ?J"
          using joined_iff [OF dr ar] joined_iff [OF dr br] by simp_all
        have "?J \<noteq> []"
        proof
          assume "?J = []"
          with aJ show False by (simp only: list.set empty_iff)
        qed
        then have len: "length (fst img # ?J) > 1" by (cases ?J) auto
        let ?g = "\<lparr> group = fst img # ?J, similarity = 9 / 10 \<rparr>"
        have "groupFrom (img # rest) seen acc
              = groupFrom rest ((seen \<union> set ?J) \<union> set (fst img # ?J)) (acc @ [?g])"
          using pi h1 len by (simp add: scanRest_eq [OF dr])
        moreover have "?g \<in> set (groupFrom rest ((seen \<union> set ?J) \<union> set (fst img # ?J)) (acc @ [?g]))"
          by (rule groupFrom_keeps) simp
        ultimately have "?g \<in> set (groupFrom (img # rest) seen acc)" by simp
        moreover have "fst a \<in> set (group ?g) \<and> fst b \<in> set (group ?g)" using aJ bJ by simp
        ultimately show ?thesis by blast
      next
        case False
        with same have aJ: "fst a \<notin> set ?J" and bJ: "fst b \<notin> set ?J"
          using joined_iff [OF dr ar] joined_iff [OF dr br] by simp_all
        have 1: "fst a \<notin> seen \<union> set ?J" "fst b \<notin> seen \<union> set ?J"
          using aJ bJ Cons.prems(5,6) by auto
        have 2: "fst a \<notin> (seen \<union> set ?J) \<union> set (fst img # ?J)"
          "fst b \<notin> (seen \<union> set ?J) \<union> set (fst img # ?J)"
          using aJ bJ Cons.prems(5,6) na nb by auto
        show ?thesis
        proof (cases "length (fst img # ?J) > 1")
          case True
          then have "groupFrom (img # rest) seen acc
                = groupFrom rest ((seen \<union> set ?J) \<union> set (fst img # ?J))
                    (acc @ [\<lparr> group = fst img # ?J, similarity = 9 / 10 \<rparr>])"
            using pi h1 by (simp add: scanRest_eq [OF dr])
          with IH [OF 2] show ?thesis by simp
        next
          case False
          then have "groupFrom (img # rest) seen acc
                = groupFrom rest (seen \<union> set ?J) acc"
            using pi h1 by (simp add: scanRest_eq [OF dr])
          with IH [OF 1] show ?thesis by simp
        qed
      qed
    qed
  qed
qed

text \<open>The similarity of two hashes does not depend on their order.\<close>

lemma calculateHashSimilarity_symmetric:
  "calculateHashSimilarity a b = calculateHashSimilarity b a"
proof (cases "length a = length b")
  case True
  have "matchCount a b = matchCount b a"
    using True
  proof (induction a b rule: list_induct2)
    case Nil
    then show ?case by (simp add: matchCount_def)
  next
    case (Cons x xs y ys)
    then show ?case by (auto simp: matchCount_def)
  qed
  with True show ?thesis by (simp add: calculateHashSimilarity_def)
next
  case False
  then show ?thesis by (auto simp: calculateHashSimilarity_def)
qed

text \<open>
  C6. Every emitted group has at least two members and similarity exactly 0.9, and two
  imgs of the input whose hash strings are 100% identical (similarity 1) are members
  of one emitted group, wherever they stand in the list and whatever else it holds. Image
  ids are unique, as the data model has them.
\<close>

theorem findSimilarImages_groups:
  assumes "distinct (map fst imgs)"
  shows "(\<forall>g \<in> set (findSimilarImages imgs). 2 \<le> length (group g) \<and> similarity g = 9 / 10)
       \<and> (\<forall>a b h1 h2. a \<in> set imgs \<and> b \<in> set imgs \<and> fst a \<noteq> fst b
              \<and> pHash (snd a) = Some h1 \<and> pHash (snd b) = Some h2
              \<and> calculateHashSimilarity h1 h2 = 1
            \<longrightarrow> (\<exists>g \<in> set (findSimilarImages imgs).
                   fst a \<in> set (group g) \<and> fst b \<in> set (group g)))"
proof -
  have "list_all (\<lambda>g. 2 \<le> length (group g) \<and> similarity g = 9 / 10) (findSimilarImages imgs)"
    unfolding findSimilarImages_def by (rule groupFrom_wellformed) simp
  then have one: "\<forall>g \<in> set (findSimilarImages imgs). 2 \<le> length (group g) \<and> similarity g = 9 / 10"
    by (simp add: list_all_iff)
  have two: "\<exists>g \<in> set (findSimilarImages imgs). fst a \<in> set (group g) \<and> fst b \<in> set (group g)"
    if "a \<in> set imgs" "b \<in> set imgs" "fst a \<noteq> fst b" "pHash (snd a) = Some h1"
      "pHash (snd b) = Some h2" "calculateHashSimilarity h1 h2 = 1" for a b h1 h2
  proof -
    from similarity_one [OF that(6)] have "h1 = h2" "h1 \<noteq> []" by blast+
    with that(4,5) have "truthyHash (snd a) = Some h1" "truthyHash (snd b) = Some h1"
      by (simp_all add: truthyHash_def)
    from groupFrom_identical [OF assms that(1,2,3) _ _ this, of "{}" "[]"]
    show ?thesis by (simp add: findSimilarImages_def)
  qed
  from one two show ?thesis by blast
qed

theorem findSimilarImages_groups_witness:
  "distinct (map fst trio)
   \<and> list_all (\<lambda>g. 2 \<le> length (group g) \<and> similarity g = 9 / 10) (findSimilarImages trio)
   \<and> (\<exists>g \<in> set (findSimilarImages trio). ''a'' \<in> set (group g) \<and> ''b'' \<in> set (group g))"
proof -
  have d: "distinct (map fst trio)" by (simp add: trio_def)
  have s: "calculateHashSimilarity ''1010'' ''1010'' = 1" by (simp add: similarity_self)
  note t = findSimilarImages_groups [OF d]
  from t have "list_all (\<lambda>g. 2 \<le> length (group g) \<and> similarity g = 9 / 10) (findSimilarImages trio)"
    by (simp add: list_all_iff)
  moreover from t have "(''a'', hashed ''1010'') \<in> set trio \<and> (''b'', hashed ''1010'') \<in> set trio
      \<and> fst (''a'', hashed ''1010'') \<noteq> fst (''b'', hashed ''1010'')
      \<and> pHash (snd (''a'', hashed ''1010'')) = Some ''1010''
      \<and> pHash (snd (''b'', hashed ''1010'')) = Some ''1010''
      \<and> calculateHashSimilarity ''1010'' ''1010'' = 1
    \<longrightarrow> (\<exists>g \<in> set (findSimilarImages trio).
           fst (''a'', hashed ''1010'') \<in> set (group g) \<and> fst (''b'', hashed ''1010'') \<in> set (group g))"
    by blast
  then have "\<exists>g \<in> set (findSimilarImages trio). ''a'' \<in> set (group g) \<and> ''b'' \<in> set (group g)"
    using s by (simp add: trio_def hashed_def blankAnalysis_def)
  ultimately show ?thesis using d by simp
qed

section \<open>Batch processor: properties\<close>

text \<open>
  C1. In Scenario D the loop stops at the next image boundary: two images are processed
  and the other three are untouched. The status goes to \<^term>\<open>Idle\<close> when the stop is
  requested, but the code after the loop runs all the same and the run ends with status
  \<^term>\<open>Complete\<close>.
\<close>

theorem cancelled_run_ends_complete:
  "processed (stats (finalState (initialState queue5) cancelledRun)) = 2
   \<and> map isProcessed (images (finalState (initialState queue5) cancelledRun))
       = [True, True, False, False, False]
   \<and> map (\<lambda>s. status (progress s)) cancelledRun
       = [Idle, Processing, Processing, Processing, Processing, Processing, Processing,
          Processing, Processing, Idle, Idle, Idle, Idle, Idle, Complete, Complete, Complete]
   \<and> status (progress (finalState (initialState queue5) cancelledRun)) = Complete"
  by (simp add: cancelledRun_def mounted_def finalState_def processImages_def
      resumeProcessImages_def loopHead_def afterLoop_def settle_def initialState_def queue5_def
      newImage_def defaultOptions_def plainRun_def startLocals_def stopProcessing_def
      signalAborted_def onAnalyzed_def updateImage_def findDuplicatesStep_def Let_def)

lemma afterLoop_stats: "list_all (sameCounts s) (afterLoop f l s)"
  by (simp add: afterLoop_def Let_def findDuplicatesStep_def sameCounts_def)

lemma afterLoop_last:
  "afterLoop f l s \<noteq> []"
  by (simp add: afterLoop_def Let_def)

lemma stopProcessing_stats: "list_all (\<lambda>s'. stats s' = stats s) (stopProcessing s)"
  by (simp add: stopProcessing_def Let_def)

lemma onAnalyzed_stats:
  "onAnalyzed opts im run a l s = (l', s') \<Longrightarrow>
   stats s' = stats s \<and> nProcessed l' = nProcessed l \<and> nSuccessful l' = nSuccessful l + 1
   \<and> nErrors l' = nErrors l"
  by (auto simp: onAnalyzed_def updateImage_def Let_def)

lemma onFailed_stats:
  "onFailed im e l s = (l', s') \<Longrightarrow>
   stats s' = stats s \<and> nProcessed l' = nProcessed l \<and> nSuccessful l' = nSuccessful l
   \<and> nErrors l' = nErrors l + 1"
  by (auto simp: onFailed_def updateImage_def)

lemma sameCounts_last:
  assumes "list_all (sameCounts s) tr"
  shows "sameCounts s (last (s # tr))"
proof (cases "tr = []")
  case True
  then show ?thesis by (simp add: sameCounts_def)
next
  case False
  then have "last (s # tr) \<in> set tr" by simp
  with assms show ?thesis by (simp add: list_all_iff)
qed

lemma loopHead_shape:
  assumes "loopHead f l todo s = (nxt, tr)"
  shows "list_all (sameCounts s) tr
         \<and> (case nxt of None \<Rightarrow> True
             | Some r \<Rightarrow> locals r = l \<and> frame r = f \<and> inFlight r # queued r = todo)"
  using assms afterLoop_stats [of s f l]
  by (auto simp: loopHead_def sameCounts_def split: list.splits if_splits)

lemma resume_shape:
  assumes "resumeProcessImages r run s = (nxt, tr)"
  shows "\<exists>l4 s3 s4 tr'. tr = s3 # s4 # tr' \<and> stats s3 = stats s
           \<and> nProcessed l4 = nProcessed (locals r) + 1
           \<and> nSuccessful l4 + nErrors l4 = nSuccessful (locals r) + nErrors (locals r) + 1
           \<and> total (stats s4) = total (stats s) \<and> processed (stats s4) = nProcessed l4
           \<and> successful (stats s4) = nSuccessful l4 \<and> errors (stats s4) = nErrors l4
           \<and> list_all (sameCounts s4) tr'
           \<and> (case nxt of None \<Rightarrow> True
               | Some r' \<Rightarrow> locals r' = l4 \<and> frame r' = frame r
                            \<and> inFlight r' # queued r' = queued r)"
proof -
  obtain l3 s3 where step: "(case analyzeResult run of
                        Inr a \<Rightarrow>
                          onAnalyzed (closureOptions (frame r)) (inFlight r) run a (locals r) s
                      | Inl e \<Rightarrow> onFailed (inFlight r) e (locals r) s) = (l3, s3)"
    by fastforce
  define l4 where "l4 = l3\<lparr> nProcessed := nProcessed l3 + 1 \<rparr>"
  define s4 where "s4 = s3\<lparr> stats := (stats s3)\<lparr> processed := nProcessed l4,
                                          successful := nSuccessful l4, errors := nErrors l4,
                                          categorized := counts l4,
                                          avgProcessingTime := average (processingTimes l4) \<rparr> \<rparr>"
  obtain nxt' tr' where head: "loopHead (frame r) l4 (queued r) s4 = (nxt', tr')"
    by fastforce
  have res: "resumeProcessImages r run s = (nxt', [s3, s4] @ tr')"
    using step head by (simp add: resumeProcessImages_def Let_def l4_def s4_def)
  have cnt: "stats s3 = stats s \<and> nProcessed l3 = nProcessed (locals r)
             \<and> nSuccessful l3 + nErrors l3 = nSuccessful (locals r) + nErrors (locals r) + 1"
    using step by (auto split: sum.splits dest!: onAnalyzed_stats onFailed_stats)
  from res assms have e: "nxt = nxt'" "tr = s3 # s4 # tr'" by simp_all
  show ?thesis
    using cnt loopHead_shape [OF head] e
    by (intro exI [of _ l4] exI [of _ s3] exI [of _ s4] exI [of _ tr'])
       (simp add: l4_def s4_def)
qed

lemma processImages_shape:
  assumes "processImages opts s = (nxt, tr)" and "\<not> (isProcessing s \<or> images s = [])"
  shows "\<exists>s1 s2 s3 tr' n. tr = s1 # s2 # s3 # tr' \<and> stats s1 = stats s \<and> stats s2 = stats s
           \<and> total (stats s3) = n \<and> processed (stats s3) = 0 \<and> successful (stats s3) = 0
           \<and> errors (stats s3) = 0 \<and> list_all (sameCounts s3) tr'
           \<and> (case nxt of None \<Rightarrow> True
               | Some r \<Rightarrow> locals r = startLocals \<and> 1 + length (queued r) = n)"
proof -
  define todo where "todo = filter (\<lambda>img. \<not> isProcessed img) (images s)"
  define s1 where "s1 = s\<lparr> isProcessing := True, abortController := Some False \<rparr>"
  define s2 where "s2 = s1\<lparr> progress := \<lparr> current = 0, progressTotal = length todo,
                                     status = Processing, currentFile = None, stage = Analysis \<rparr> \<rparr>"
  define s3 where "s3 = s2\<lparr> stats := \<lparr> total = length todo, processed = 0, successful = 0,
                                errors = 0, categorized = Map.empty,
                                avgProcessingTime = Some 0, endTimeSet = False \<rparr> \<rparr>"
  define f where "f = \<lparr> closureImages = images s, closureOptions = opts,
                  unprocessedCount = length todo \<rparr>"
  obtain nxt' tr' where head: "loopHead f startLocals todo s3 = (nxt', tr')" by fastforce
  have "processImages opts s = (nxt', [s1, s2, s3] @ tr')"
    using assms(2) head
    by (simp add: processImages_def Let_def todo_def s1_def s2_def s3_def f_def)
  with assms(1) have e: "nxt = nxt'" "tr = s1 # s2 # s3 # tr'" by simp_all
  have "case nxt' of None \<Rightarrow> True
        | Some r \<Rightarrow> locals r = startLocals \<and> 1 + length (queued r) = length todo"
    using loopHead_shape [OF head] by (auto split: option.splits simp flip: length_Cons)
  then show ?thesis
    using loopHead_shape [OF head] e
    by (intro exI [of _ s1] exI [of _ s2] exI [of _ s3] exI [of _ tr'] exI [of _ "length todo"])
       (simp add: s1_def s2_def s3_def)
qed

lemma last_keeps: "P s \<Longrightarrow> list_all P tr \<Longrightarrow> P (last (s # tr))"
  by (cases "tr = []") (auto simp: list_all_iff)

lemma sameCounts_sums: "sumsAgree s \<Longrightarrow> list_all (sameCounts s) tr \<Longrightarrow> list_all sumsAgree tr"
  by (auto simp: list_all_iff sameCounts_def sumsAgree_def)

lemma sameCounts_invariant:
  "statsInvariant (stats s) \<Longrightarrow> list_all (sameCounts s) tr
   \<Longrightarrow> list_all (\<lambda>s'. statsInvariant (stats s')) tr"
  by (auto simp: list_all_iff sameCounts_def statsInvariant_def)

lemma settle_all:
  assumes "list_all P rs" and "case nxt of None \<Rightarrow> True | Some r \<Rightarrow> P r"
  shows "list_all P (settle k nxt rs)"
proof (cases "nxt")
  case None
  with assms(1) show ?thesis
    by (auto simp: settle_def list_all_iff dest: in_set_takeD in_set_dropD)
next
  case (Some r)
  with assms show ?thesis
    by (auto simp: settle_def list_all_iff dest!: set_update_subset_insert [THEN subsetD])
qed

lemma hookStep_agreeing:
  assumes "agreeing h" and "hookStep e h = (h', tr)"
  shows "agreeing h' \<and> list_all sumsAgree tr"
proof (cases e)
  case (ProcessImages opts)
  obtain nxt tr0 where p: "processImages opts (hookState h) = (nxt, tr0)" by fastforce
  with assms(2) ProcessImages
  have h': "h' = \<lparr> hookState = last (hookState h # tr0),
                   active = active h @ (case nxt of None \<Rightarrow> [] | Some r \<Rightarrow> [r]) \<rparr>"
    and tr: "tr = tr0" by auto
  show ?thesis
  proof (cases "isProcessing (hookState h) \<or> images (hookState h) = []")
    case True
    with p have "nxt = None" "tr0 = []" by (simp_all add: processImages_def)
    with h' tr assms(1) show ?thesis by (simp add: agreeing_def)
  next
    case False
    from processImages_shape [OF p False]
    obtain s1 s2 s3 tr' n where sh: "tr0 = s1 # s2 # s3 # tr'" "stats s1 = stats (hookState h)"
      "stats s2 = stats (hookState h)" "processed (stats s3) = 0" "successful (stats s3) = 0"
      "errors (stats s3) = 0" "list_all (sameCounts s3) tr'"
      "case nxt of None \<Rightarrow> True | Some r \<Rightarrow> locals r = startLocals \<and> 1 + length (queued r) = n"
      by blast
    have a3: "sumsAgree s3" using sh(4,5,6) by (simp add: sumsAgree_def)
    have a12: "sumsAgree s1" "sumsAgree s2"
      using assms(1) sh(2,3) by (simp_all add: agreeing_def sumsAgree_def)
    have all: "list_all sumsAgree tr0"
      using a12 a3 sameCounts_sums [OF a3 sh(7)] sh(1) by simp
    have "list_all (\<lambda>r. localsAgree (locals r)) (case nxt of None \<Rightarrow> [] | Some r \<Rightarrow> [r])"
      using sh(8) by (auto split: option.splits simp: localsAgree_def startLocals_def)
    with assms(1) all h' tr show ?thesis
      by (simp add: agreeing_def last_keeps del: last.simps)
  qed
next
  case StopProcessing
  with assms(2) have h': "h' = h\<lparr> hookState := last (hookState h # stopProcessing (hookState h)) \<rparr>"
    and tr: "tr = stopProcessing (hookState h)" by auto
  have "list_all sumsAgree (stopProcessing (hookState h))"
    using assms(1) stopProcessing_stats [of "hookState h"]
    by (auto simp: list_all_iff agreeing_def sumsAgree_def)
  with assms(1) h' tr show ?thesis by (simp add: agreeing_def last_keeps del: last.simps)
next
  case (Analyzed k run)
  show ?thesis
  proof (cases "k < length (active h)")
    case False
    with assms Analyzed show ?thesis by simp
  next
    case True
    obtain nxt tr0 where r: "resumeProcessImages (active h ! k) run (hookState h) = (nxt, tr0)"
      by fastforce
    with assms(2) Analyzed True
    have h': "h' = \<lparr> hookState = last (hookState h # tr0), active = settle k nxt (active h) \<rparr>"
      and tr: "tr = tr0" by auto
    have la: "localsAgree (locals (active h ! k))"
      using assms(1) True by (simp add: agreeing_def list_all_length)
    from resume_shape [OF r]
    obtain l4 s3 s4 tr' where sh: "tr0 = s3 # s4 # tr'" "stats s3 = stats (hookState h)"
      "nProcessed l4 = nProcessed (locals (active h ! k)) + 1"
      "nSuccessful l4 + nErrors l4
         = nSuccessful (locals (active h ! k)) + nErrors (locals (active h ! k)) + 1"
      "processed (stats s4) = nProcessed l4" "successful (stats s4) = nSuccessful l4"
      "errors (stats s4) = nErrors l4" "list_all (sameCounts s4) tr'"
      "case nxt of None \<Rightarrow> True
       | Some r' \<Rightarrow> locals r' = l4 \<and> frame r' = frame (active h ! k)
                    \<and> inFlight r' # queued r' = queued (active h ! k)"
      by blast
    have l4: "localsAgree l4" using la sh(3,4) by (simp add: localsAgree_def)
    have a3: "sumsAgree s3" using assms(1) sh(2) by (simp add: agreeing_def sumsAgree_def)
    have a4: "sumsAgree s4" using l4 sh(5,6,7) by (simp add: sumsAgree_def localsAgree_def)
    have all: "list_all sumsAgree tr0"
      using a3 a4 sameCounts_sums [OF a4 sh(8)] sh(1) by simp
    have "case nxt of None \<Rightarrow> True | Some r' \<Rightarrow> localsAgree (locals r')"
      using sh(9) l4 by (auto split: option.splits)
    from settle_all [of "\<lambda>r. localsAgree (locals r)", OF _ this] assms(1)
    have "list_all (\<lambda>r. localsAgree (locals r)) (settle k nxt (active h))"
      by (simp add: agreeing_def)
    with assms(1) all h' tr show ?thesis
      by (simp add: agreeing_def last_keeps del: last.simps)
  qed
qed

text \<open>
  Whatever is called and whenever the analyses return, re-entry included, every state has
  \<open>processed = successful + errors\<close>.
\<close>

lemma runEvents_agreeing:
  assumes "agreeing h" and "runEvents es h = (h', tr)"
  shows "agreeing h' \<and> list_all sumsAgree tr"
  using assms
proof (induction es arbitrary: h h' tr)
  case Nil
  then show ?case by simp
next
  case (Cons e es)
  obtain h1 tr1 where 1: "hookStep e h = (h1, tr1)" by fastforce
  obtain h2 tr2 where 2: "runEvents es h1 = (h2, tr2)" by fastforce
  from hookStep_agreeing [OF Cons.prems(1) 1] have a1: "agreeing h1" "list_all sumsAgree tr1"
    by simp_all
  from Cons.IH [OF a1(1) 2] have "agreeing h2" "list_all sumsAgree tr2" by simp_all
  with a1 1 2 Cons.prems(2) show ?case by auto
qed

lemma hookStep_underWay:
  assumes "underWay h"
    and "case e of ProcessImages opts \<Rightarrow> active h = [] | StopProcessing \<Rightarrow> True
                 | Analyzed k run \<Rightarrow> True"
    and "hookStep e h = (h', tr)"
  shows "underWay h' \<and> list_all (\<lambda>s. statsInvariant (stats s)) tr"
proof (cases e)
  case (ProcessImages opts)
  with assms(2) have idle: "active h = []" by simp
  obtain nxt tr0 where p: "processImages opts (hookState h) = (nxt, tr0)" by fastforce
  with assms(3) ProcessImages idle
  have h': "h' = \<lparr> hookState = last (hookState h # tr0),
                   active = (case nxt of None \<Rightarrow> [] | Some r \<Rightarrow> [r]) \<rparr>"
    and tr: "tr = tr0" by auto
  from assms(1) have i: "statsInvariant (stats (hookState h))" by (simp add: underWay_def)
  show ?thesis
  proof (cases "isProcessing (hookState h) \<or> images (hookState h) = []")
    case True
    with p have "nxt = None" "tr0 = []" by (simp_all add: processImages_def)
    with h' tr i show ?thesis by (simp add: underWay_def)
  next
    case False
    from processImages_shape [OF p False]
    obtain s1 s2 s3 tr' n where sh: "tr0 = s1 # s2 # s3 # tr'" "stats s1 = stats (hookState h)"
      "stats s2 = stats (hookState h)" "total (stats s3) = n" "processed (stats s3) = 0"
      "successful (stats s3) = 0" "errors (stats s3) = 0" "list_all (sameCounts s3) tr'"
      "case nxt of None \<Rightarrow> True | Some r \<Rightarrow> locals r = startLocals \<and> 1 + length (queued r) = n"
      by blast
    have i3: "statsInvariant (stats s3)" using sh(5,6,7) by (simp add: statsInvariant_def)
    have all: "list_all (\<lambda>s. statsInvariant (stats s)) tr0"
      using i sh(2,3) i3 sameCounts_invariant [OF i3 sh(8)] sh(1) by simp
    have fin: "sameCounts s3 (last (hookState h # tr0))"
      using sameCounts_last [OF sh(8)] sh(1) by simp
    then have tot: "total (stats (last (hookState h # tr0))) = n"
      using sh(4) by (simp add: sameCounts_def)
    have "case nxt of None \<Rightarrow> True
          | Some r \<Rightarrow> localsAgree (locals r)
                       \<and> nProcessed (locals r) + 1 + length (queued r) \<le> n"
      using sh(9) by (auto split: option.splits simp: localsAgree_def startLocals_def)
    with all tot h' tr last_keeps [of "\<lambda>s. statsInvariant (stats s)", OF i all] show ?thesis
      by (auto simp: underWay_def split: option.splits)
  qed
next
  case StopProcessing
  with assms(3) have h': "h' = h\<lparr> hookState := last (hookState h # stopProcessing (hookState h)) \<rparr>"
    and tr: "tr = stopProcessing (hookState h)" by auto
  define s' where "s' = last (hookState h # stopProcessing (hookState h))"
  have st: "stats s' = stats (hookState h)"
    by (simp add: s'_def stopProcessing_def Let_def)
  have all: "list_all (\<lambda>s. statsInvariant (stats s)) (stopProcessing (hookState h))"
    using assms(1) stopProcessing_stats [of "hookState h"]
    by (auto simp: list_all_iff underWay_def)
  from h' have "h' = h\<lparr> hookState := s' \<rparr>" by (simp only: s'_def)
  with assms(1) st have "underWay h'"
    by (cases "active h") (simp_all add: underWay_def)
  with all tr show ?thesis by simp
next
  case (Analyzed k run)
  show ?thesis
  proof (cases "k < length (active h)")
    case False
    with assms Analyzed show ?thesis by simp
  next
    case True
    with assms(1) obtain r where act: "active h = [r]" and k: "k = 0"
      and la: "localsAgree (locals r)"
      and bound: "nProcessed (locals r) + 1 + length (queued r) \<le> total (stats (hookState h))"
      by (cases "active h") (auto simp: underWay_def)
    obtain nxt tr0 where r: "resumeProcessImages r run (hookState h) = (nxt, tr0)" by fastforce
    with assms(3) Analyzed act k
    have h': "h' = \<lparr> hookState = last (hookState h # tr0), active = settle 0 nxt [r] \<rparr>"
      and tr: "tr = tr0" by auto
    from assms(1) have i: "statsInvariant (stats (hookState h))" by (simp add: underWay_def)
    from resume_shape [OF r]
    obtain l4 s3 s4 tr' where sh: "tr0 = s3 # s4 # tr'" "stats s3 = stats (hookState h)"
      "nProcessed l4 = nProcessed (locals r) + 1"
      "nSuccessful l4 + nErrors l4 = nSuccessful (locals r) + nErrors (locals r) + 1"
      "total (stats s4) = total (stats (hookState h))"
      "processed (stats s4) = nProcessed l4" "successful (stats s4) = nSuccessful l4"
      "errors (stats s4) = nErrors l4" "list_all (sameCounts s4) tr'"
      "case nxt of None \<Rightarrow> True
       | Some r' \<Rightarrow> locals r' = l4 \<and> frame r' = frame r \<and> inFlight r' # queued r' = queued r"
      by blast
    have l4: "localsAgree l4" using la sh(3,4) by (simp add: localsAgree_def)
    have i4: "statsInvariant (stats s4)"
      using l4 sh(3,5,6,7,8) bound by (simp add: statsInvariant_def localsAgree_def)
    have all: "list_all (\<lambda>s. statsInvariant (stats s)) tr0"
      using i sh(2) i4 sameCounts_invariant [OF i4 sh(9)] sh(1) by simp
    have "sameCounts s4 (last (hookState h # tr0))"
      using sameCounts_last [OF sh(9)] sh(1) by simp
    then have tot: "total (stats (last (hookState h # tr0))) = total (stats (hookState h))"
      using sh(5) by (simp add: sameCounts_def)
    have "case nxt of None \<Rightarrow> True
          | Some r' \<Rightarrow> localsAgree (locals r')
                        \<and> nProcessed (locals r') + 1 + length (queued r')
                            \<le> total (stats (hookState h))"
    proof (cases nxt)
      case None
      then show ?thesis by simp
    next
      case (Some r')
      with sh(10) have eq: "locals r' = l4" "inFlight r' # queued r' = queued r" by simp_all
      from eq(2) have "length (inFlight r' # queued r') = length (queued r)" by (rule arg_cong)
      with eq(1) have "locals r' = l4" "length (queued r') + 1 = length (queued r)" by simp_all
      with l4 sh(3) bound Some show ?thesis by simp
    qed
    with all tot h' tr last_keeps [of "\<lambda>s. statsInvariant (stats s)", OF i all] show ?thesis
      by (auto simp: underWay_def settle_def split: option.splits)
  qed
qed

text \<open>
  As long as \<^verbatim>\<open>processImages\<close> is not called while an earlier call is suspended,
  every state has \<open>processed \<le> total\<close> too, cancellation included.
\<close>

lemma serial_runs_keep_invariant:
  assumes "underWay h" and "serial h es" and "runEvents es h = (h', tr)"
  shows "underWay h' \<and> list_all (\<lambda>s. statsInvariant (stats s)) tr"
  using assms
proof (induction es arbitrary: h h' tr)
  case Nil
  then show ?case by simp
next
  case (Cons e es)
  obtain h1 tr1 where 1: "hookStep e h = (h1, tr1)" by fastforce
  obtain h2 tr2 where 2: "runEvents es h1 = (h2, tr2)" by fastforce
  from Cons.prems(2) 1 have c: "case e of ProcessImages opts \<Rightarrow> active h = []
      | StopProcessing \<Rightarrow> True | Analyzed k run \<Rightarrow> True" and s: "serial h1 es"
    by simp_all
  from hookStep_underWay [OF Cons.prems(1) c 1]
  have a1: "underWay h1" "list_all (\<lambda>s. statsInvariant (stats s)) tr1" by simp_all
  from Cons.IH [OF a1(1) s 2] have "underWay h2" "list_all (\<lambda>s. statsInvariant (stats s)) tr2"
    by simp_all
  with a1 1 2 Cons.prems(3) show ?case by auto
qed

lemma mounted_underWay: "underWay (mounted imgs)"
  by (simp add: underWay_def mounted_def initialState_def statsInvariant_def)

lemma stop_aborts: "abortController s = Some b \<Longrightarrow> signalAborted (last (s # stopProcessing s))"
  by (simp add: stopProcessing_def Let_def signalAborted_def)

lemma resume_after_abort: "signalAborted s \<Longrightarrow> fst (resumeProcessImages r run s) = None"
  by (auto simp: resumeProcessImages_def Let_def loopHead_def signalAborted_def onAnalyzed_def
      onFailed_def updateImage_def split: sum.splits list.splits prod.splits option.splits)

text \<open>
  After \<^verbatim>\<open>stopProcessing\<close>, and until \<^verbatim>\<open>processImages\<close> is called again, an
  activation whose analysis returns ends there: it starts none of its queued images.
\<close>

lemma stop_request_ends_call:
  assumes "abortController s = Some b"
  shows "fst (resumeProcessImages r run (last (s # stopProcessing s))) = None"
  by (rule resume_after_abort [OF stop_aborts [OF assms]])

lemma restartedRun_counters:
  "counters (finalState (initialState queue5) restartedRun) = (4, 5, 5, 0)"
  by (simp add: restartedRun_def mounted_def finalState_def processImages_def
      resumeProcessImages_def loopHead_def afterLoop_def settle_def initialState_def queue5_def
      newImage_def defaultOptions_def plainRun_def startLocals_def stopProcessing_def
      signalAborted_def onAnalyzed_def updateImage_def findDuplicatesStep_def Let_def
      counters_def)

text \<open>
  C2. The statistics invariant does not hold at every observation point. With five queued
  images, \<^verbatim>\<open>stopProcessing\<close> during the second analysis resets
  \<^verbatim>\<open>isProcessing\<close>; a new call of \<^verbatim>\<open>processImages\<close> then passes the guard,
  replaces the aborted controller and sets \<open>total\<close> to 4. The first call, resumed, reads
  the new controller, goes on through all its images and writes \<open>processed = 5\<close> over
  \<open>total = 4\<close>.
\<close>

theorem restarted_run_breaks_total:
  "total (stats (finalState (initialState queue5) restartedRun)) = 4
   \<and> processed (stats (finalState (initialState queue5) restartedRun)) = 5
   \<and> successful (stats (finalState (initialState queue5) restartedRun)) = 5
   \<and> errors (stats (finalState (initialState queue5) restartedRun)) = 0
   \<and> \<not> statsInvariant (stats (finalState (initialState queue5) restartedRun))"
  using restartedRun_counters by (simp add: counters_def statsInvariant_def)

section \<open>Quality analyzer: properties\<close>

lemma sum_list_bounds:
  fixes xs :: "real list"
  assumes "\<And>x. x \<in> set xs \<Longrightarrow> lo \<le> x \<and> x \<le> hi"
  shows "lo * real (length xs) \<le> sum_list xs \<and> sum_list xs \<le> hi * real (length xs)"
  using assms
proof (induction xs)
  case Nil
  then show ?case by simp
next
  case (Cons a xs)
  then have "lo \<le> a \<and> a \<le> hi"
    and "lo * real (length xs) \<le> sum_list xs \<and> sum_list xs \<le> hi * real (length xs)"
    by simp_all
  then show ?case by (simp add: algebra_simps)
qed

lemma rgbaPixels_bytes:
  "p \<in> set (rgbaPixels d) \<Longrightarrow>
   fst p \<le> 255 \<and> fst (snd p) \<le> 255 \<and> fst (snd (snd p)) \<le> 255"
proof (induction d rule: rgbaPixels.induct)
  case (1 r g b a rest)
  have "unat r < 256" "unat g < 256" "unat b < 256"
    using unsigned_less [of r] unsigned_less [of g] unsigned_less [of b] by simp_all
  with 1 show ?case by auto
qed simp_all

lemma pixelBrightness_range:
  assumes "p \<in> set (rgbaPixels d)"
  shows "0 \<le> pixelBrightness p \<and> pixelBrightness p \<le> 255"
  using rgbaPixels_bytes [OF assms]
  by (cases p) (auto simp: pixelBrightness_def)

lemma length_rgbaPixels: "length (rgbaPixels d) = length d div 4"
  by (induction d rule: rgbaPixels.induct) simp_all

lemma wellFormed_pixels: "wellFormed img \<Longrightarrow> 0 < length (rgbaPixels (pixelData img))"
  by (simp add: wellFormed_def length_rgbaPixels)

lemma toFixed3_unit: "inUnit x \<Longrightarrow> inUnit (toFixed3 x)"
proof -
  assume "inUnit x"
  then have x: "0 \<le> x" "x \<le> 1" by (simp_all add: inUnit_def)
  then have "0 \<le> \<lfloor>x * 1000 + 1 / 2\<rfloor>" by simp
  moreover have "\<lfloor>x * 1000 + 1 / 2\<rfloor> \<le> 1000" using x by (simp add: floor_le_iff)
  ultimately show ?thesis using x by (simp add: toFixed3_def inUnit_def)
qed

lemma toFixed3_decimals: "threeDecimals (toFixed3 x)"
  by (simp add: toFixed3_def threeDecimals_def)

lemma toFixed3_zero: "toFixed3 0 = 0"
  by (simp add: toFixed3_def)

lemma calculateSharpness_nonneg: "0 \<le> calculateSharpness img"
proof -
  have "0 \<le> sobelAt w d y x" for w d y x
    by (simp add: sobelAt_def Let_def)
  then have "0 \<le> (\<Sum>y \<leftarrow> [1 ..< height img - 1]. \<Sum>x \<leftarrow> [1 ..< width img - 1].
                    sobelAt (width img) (pixelData img) y x)"
    by (intro sum_list_nonneg) (auto intro!: sum_list_nonneg)
  then show ?thesis by (simp add: calculateSharpness_def)
qed

lemma mean_range:
  fixes xs :: "real list"
  assumes "xs \<noteq> []" and "\<And>x. x \<in> set xs \<Longrightarrow> 0 \<le> x \<and> x \<le> 255"
  shows "0 \<le> sum_list xs / real (length xs) \<and> sum_list xs / real (length xs) \<le> 255"
proof -
  from assms(1) have n: "0 < real (length xs)" by simp
  from sum_list_bounds [of xs 0 255] assms(2)
  have "0 \<le> sum_list xs" "sum_list xs \<le> 255 * real (length xs)" by simp_all
  with n show ?thesis by (simp add: pos_divide_le_eq)
qed

lemma deviation_range:
  fixes xs :: "real list"
  assumes "xs \<noteq> []" and "\<And>x. x \<in> set xs \<Longrightarrow> 0 \<le> x \<and> x \<le> 255"
    and "0 \<le> m" and "m \<le> 255"
  shows "0 \<le> sqrt ((\<Sum>b \<leftarrow> xs. (b - m)\<^sup>2) / real (length xs)) / 255
       \<and> sqrt ((\<Sum>b \<leftarrow> xs. (b - m)\<^sup>2) / real (length xs)) / 255 \<le> 1"
proof -
  from assms(1) have n: "0 < real (length xs)" by simp
  have each: "0 \<le> y \<and> y \<le> 255\<^sup>2" if "y \<in> set (map (\<lambda>b. (b - m)\<^sup>2) xs)" for y
  proof -
    from that obtain b where b: "b \<in> set xs" and y: "y = (b - m)\<^sup>2" by auto
    from assms(2) [OF b] assms(3,4) have "\<bar>b - m\<bar> \<le> 255" by (simp add: abs_le_iff)
    then have "(b - m)\<^sup>2 \<le> 255\<^sup>2" by (metis abs_le_square_iff abs_numeral)
    with y show ?thesis by simp
  qed
  from sum_list_bounds [of "map (\<lambda>b. (b - m)\<^sup>2) xs" 0 "255\<^sup>2"] each
  have s: "0 \<le> (\<Sum>b \<leftarrow> xs. (b - m)\<^sup>2)" "(\<Sum>b \<leftarrow> xs. (b - m)\<^sup>2) \<le> 255\<^sup>2 * real (length xs)"
    by simp_all
  with n have q: "0 \<le> (\<Sum>b \<leftarrow> xs. (b - m)\<^sup>2) / real (length xs)"
    "(\<Sum>b \<leftarrow> xs. (b - m)\<^sup>2) / real (length xs) \<le> 255\<^sup>2"
    by (simp_all add: pos_divide_le_eq)
  from q(2) have "sqrt ((\<Sum>b \<leftarrow> xs. (b - m)\<^sup>2) / real (length xs)) \<le> sqrt (255\<^sup>2)"
    by (rule real_sqrt_le_mono)
  then have "sqrt ((\<Sum>b \<leftarrow> xs. (b - m)\<^sup>2) / real (length xs)) \<le> 255" by simp
  with q(1) show ?thesis by simp
qed

lemma mean3_unit:
  fixes a b c :: real
  shows "0 \<le> a \<Longrightarrow> a \<le> 1 \<Longrightarrow> 0 \<le> b \<Longrightarrow> b \<le> 1 \<Longrightarrow> 0 \<le> c \<Longrightarrow> c \<le> 1
         \<Longrightarrow> inUnit ((a + b + c) / 3)"
  by (simp add: inUnit_def)

lemma analyzeQuality_unit:
  assumes "wellFormed img"
  shows "inUnit (sharpness (analyzeQuality img)) \<and> inUnit (contrast (analyzeQuality img))
       \<and> inUnit (brightness (analyzeQuality img)) \<and> inUnit (qscore (analyzeQuality img))"
proof -
  define bs where "bs = map pixelBrightness (rgbaPixels (pixelData img))"
  define m where "m = sum_list bs / real (length bs)"
  define c where "c = sqrt ((\<Sum>b \<leftarrow> bs. (b - m)\<^sup>2) / real (length bs)) / 255"
  define sh where "sh = min (calculateSharpness img) 1"
  have ne: "bs \<noteq> []" using wellFormed_pixels [OF assms] by (auto simp: bs_def)
  have rng: "0 \<le> x \<and> x \<le> 255" if "x \<in> set bs" for x
    using that pixelBrightness_range by (auto simp: bs_def)
  from mean_range [OF ne rng] have m: "0 \<le> m" "m \<le> 255" by (simp_all add: m_def)
  from deviation_range [OF ne rng m] have c: "0 \<le> c" "c \<le> 1" by (simp_all add: c_def)
  have sh: "0 \<le> sh" "sh \<le> 1" using calculateSharpness_nonneg [of img] by (simp_all add: sh_def)
  have bsc: "0 \<le> 1 - \<bar>m - 128\<bar> / 128" "1 - \<bar>m - 128\<bar> / 128 \<le> 1" using m by simp_all
  have csc: "0 \<le> min (c * 2) 1" "min (c * 2) 1 \<le> 1" using c by simp_all
  have ov: "inUnit ((1 - \<bar>m - 128\<bar> / 128 + min (c * 2) 1 + sh) / 3)"
    by (rule mean3_unit [OF bsc csc sh])
  have q: "analyzeQuality img =
      \<lparr> sharpness = toFixed3 sh, contrast = toFixed3 c, brightness = toFixed3 (m / 255),
        qscore = toFixed3 ((1 - \<bar>m - 128\<bar> / 128 + min (c * 2) 1 + sh) / 3) \<rparr>"
    by (simp add: analyzeQuality_def Let_def bs_def m_def c_def sh_def)
  have "inUnit sh" "inUnit c" "inUnit (m / 255)"
    using sh c m by (simp_all add: inUnit_def)
  with ov show ?thesis by (simp add: q toFixed3_unit)
qed

lemma analyzeQuality_decimals:
  "threeDecimals (sharpness (analyzeQuality img)) \<and> threeDecimals (contrast (analyzeQuality img))
   \<and> threeDecimals (brightness (analyzeQuality img)) \<and> threeDecimals (qscore (analyzeQuality img))"
  by (simp add: analyzeQuality_def Let_def toFixed3_decimals)

lemma uniform_brightness:
  assumes "uniformColor img" and "rgbaPixels (pixelData img) = p # ps"
  shows "\<forall>b \<in> set (map pixelBrightness (rgbaPixels (pixelData img))). b = pixelBrightness p"
  using assms
  by (auto simp: uniformColor_def list_all_iff pixelBrightness_def split: prod.splits)

lemma constant_list_sum:
  fixes xs :: "real list"
  shows "\<forall>b \<in> set xs. b = v \<Longrightarrow> sum_list xs = real (length xs) * v"
  by (induction xs) (simp_all add: algebra_simps)

lemma uniform_contrast:
  assumes "wellFormed img" and "uniformColor img"
  shows "contrast (analyzeQuality img) = 0"
proof -
  define bs where "bs = map pixelBrightness (rgbaPixels (pixelData img))"
  from wellFormed_pixels [OF assms(1)] obtain p ps where p: "rgbaPixels (pixelData img) = p # ps"
    by (cases "rgbaPixels (pixelData img)") auto
  from uniform_brightness [OF assms(2) p] have all: "\<forall>b \<in> set bs. b = pixelBrightness p"
    by (simp add: bs_def)
  have n: "real (length bs) \<noteq> 0" using p by (simp add: bs_def)
  from constant_list_sum [OF all] n have m: "sum_list bs / real (length bs) = pixelBrightness p"
    by simp
  have "\<forall>y \<in> set (map (\<lambda>b. (b - pixelBrightness p)\<^sup>2) bs). y = 0" using all by auto
  from constant_list_sum [OF this] have "(\<Sum>b \<leftarrow> bs. (b - pixelBrightness p)\<^sup>2) = 0" by simp
  with m show ?thesis
    by (simp add: analyzeQuality_def Let_def bs_def [symmetric] toFixed3_zero)
qed

lemma single_pixel_uniform:
  assumes "wellFormed img" and "width img = 1" and "height img = 1"
  shows "uniformColor img"
proof -
  from assms have "length (pixelData img) = 4" by (simp add: wellFormed_def)
  then obtain r g b a where "pixelData img = [r, g, b, a]"
    by (auto simp: length_Suc_conv numeral_eq_Suc)
  then show ?thesis by (simp add: uniformColor_def)
qed

text \<open>
  C7. For every buffer read from a canvas of at least one pixel, the four values of the
  quality record lie in [0,1] and are multiples of 1/1000; the two divisors of the
  computation (the pixel count, and width * height * 255) are not zero; and on a 1x1 or
  a uniform-colour buffer the contrast is 0. Arithmetic is over the reals.
\<close>

theorem analyzeQuality_range:
  assumes "wellFormed img"
  shows "inUnit (sharpness (analyzeQuality img)) \<and> inUnit (contrast (analyzeQuality img))
       \<and> inUnit (brightness (analyzeQuality img)) \<and> inUnit (qscore (analyzeQuality img))
       \<and> threeDecimals (sharpness (analyzeQuality img))
       \<and> threeDecimals (contrast (analyzeQuality img))
       \<and> threeDecimals (brightness (analyzeQuality img))
       \<and> threeDecimals (qscore (analyzeQuality img))
       \<and> real (length (rgbaPixels (pixelData img))) \<noteq> 0
       \<and> real (width img) * real (height img) * 255 \<noteq> 0
       \<and> ((width img = 1 \<and> height img = 1) \<or> uniformColor img
            \<longrightarrow> contrast (analyzeQuality img) = 0)"
proof -
  have "real (length (rgbaPixels (pixelData img))) \<noteq> 0"
    using wellFormed_pixels [OF assms] by simp
  moreover have "real (width img) * real (height img) * 255 \<noteq> 0"
    using assms by (simp add: wellFormed_def)
  moreover have "contrast (analyzeQuality img) = 0"
    if "(width img = 1 \<and> height img = 1) \<or> uniformColor img"
    using that single_pixel_uniform [OF assms] uniform_contrast [OF assms] by blast
  ultimately show ?thesis
    using analyzeQuality_unit [OF assms] analyzeQuality_decimals [of img] by blast
qed

lemma onePixel_quality:
  "analyzeQuality onePixel
   = \<lparr> sharpness = 0, contrast = 0, brightness = 78 / 1000, qscore = 52 / 1000 \<rparr>"
  by (simp add: analyzeQuality_def onePixel_def Let_def pixelBrightness_def toFixed3_def
      calculateSharpness_def)

theorem analyzeQuality_range_witness:
  "wellFormed onePixel
   \<and> inUnit (sharpness (analyzeQuality onePixel)) \<and> inUnit (contrast (analyzeQuality onePixel))
   \<and> inUnit (brightness (analyzeQuality onePixel)) \<and> inUnit (qscore (analyzeQuality onePixel))
   \<and> threeDecimals (qscore (analyzeQuality onePixel))
   \<and> contrast (analyzeQuality onePixel) = 0"
proof -
  have w: "wellFormed onePixel" by (simp add: wellFormed_def onePixel_def)
  have "width onePixel = 1 \<and> height onePixel = 1" by (simp add: onePixel_def)
  with analyzeQuality_range [OF w] w show ?thesis by blast
qed


section \<open>Palette extractor: properties\<close>

lemma rgbaPixels_transparent: "rgbaPixels (transparentPixels n) = replicate n (0, 0, 0, 0)"
  by (induction n) (simp_all add: transparentPixels_def)

lemma retained_transparent: "retainedPixels (transparentPixels n) = []"
  by (simp add: retainedPixels_def rgbaPixels_transparent)

lemma retained_transparentBuffer: "retainedPixels transparentBuffer = []"
  by (simp add: transparentBuffer_def retained_transparent)

lemma retained_blackWhite: "retainedPixels blackWhiteBuffer = [(0, 0, 0), (255, 255, 255)]"
  by (simp add: blackWhiteBuffer_def retainedPixels_def rgbaPixels_transparent)


lemma kMeans_blackWhite_first:
  "kMeansClustering [(0, 0, 0), (255, 255, 255)] 5 (\<lambda>i. 0)
   = Inr [(255, 255, 255), (0, 0, 0), (0, 0, 0), (0, 0, 0), (0, 0, 0)]"
  by (simp add: kMeansClustering_def initCentroids_def pickPixel_def pickIndex_def upt_rec
      eval_nat_numeral assignPixels_def pushPixel_def recompute_def meanColor_def distance3_def)

lemma kMeans_blackWhite_second:
  "kMeansClustering [(0, 0, 0), (255, 255, 255)] 5 (\<lambda>i. 1 / 2)
   = Inr [(0, 0, 0), (255, 255, 255), (255, 255, 255), (255, 255, 255), (255, 255, 255)]"
  by (simp add: kMeansClustering_def initCentroids_def pickPixel_def pickIndex_def upt_rec
      eval_nat_numeral assignPixels_def pushPixel_def recompute_def meanColor_def distance3_def)

lemma colorString_black: "colorString (0, 0, 0) = ''#000000''"
  by (simp add: colorString_def channelHex_def padStart2_def toString16.simps hexDigit_def)

lemma colorString_white: "colorString (255, 255, 255) = ''#ffffff''"
  by (simp add: colorString_def channelHex_def padStart2_def toString16.simps hexDigit_def)

lemma pickPixel_ok:
  assumes "pixels \<noteq> []" and "0 \<le> r" and "r < 1"
  shows "\<exists>p \<in> set pixels. pickPixel pixels r = Inr p"
proof -
  have n: "0 < real (length pixels)" using assms(1) by simp
  have "r * real (length pixels) < real (length pixels)" using assms(3) n by simp
  then have "\<lfloor>r * real (length pixels)\<rfloor> < int (length pixels)" by (simp add: floor_less_iff)
  moreover have "0 \<le> \<lfloor>r * real (length pixels)\<rfloor>" using assms(2) by simp
  ultimately have "pickIndex pixels r < length pixels" by (simp add: pickIndex_def nat_less_iff)
  then show ?thesis by (auto simp: pickPixel_def Let_def)
qed

lemma collect_ok:
  assumes "\<And>x. x \<in> set xs \<Longrightarrow> \<exists>v. f x = Inr v \<and> P v"
  shows "\<exists>vs. collect (map f xs) = Inr vs \<and> length vs = length xs \<and> list_all P vs"
  using assms
proof (induction xs)
  case Nil
  then show ?case by simp
next
  case (Cons x xs)
  then obtain v where v: "f x = Inr v" "P v" by auto
  from Cons obtain vs where vs: "collect (map f xs) = Inr vs" "length vs = length xs" "list_all P vs"
    by auto
  with v show ?case by simp
qed

lemma initCentroids_ok:
  assumes "pixels \<noteq> []" and "\<And>i. i < k \<Longrightarrow> 0 \<le> rand i \<and> rand i < 1"
  shows "\<exists>cs. initCentroids pixels k rand = Inr cs \<and> length cs = k
            \<and> list_all (\<lambda>c. c \<in> set pixels) cs"
proof -
  have "\<exists>v. pickPixel pixels (rand i) = Inr v \<and> v \<in> set pixels" if "i \<in> set [0 ..< k]" for i
    using pickPixel_ok [OF assms(1), of "rand i"] assms(2) [of i] that by auto
  from collect_ok [of "[0 ..< k]" "\<lambda>i. pickPixel pixels (rand i)" "\<lambda>c. c \<in> set pixels", OF this]
  show ?thesis by (simp add: initCentroids_def)
qed

lemma closestFrom_range:
  "closestFrom pixel cs j md cl = cl \<or>
   (j \<le> closestFrom pixel cs j md cl \<and> closestFrom pixel cs j md cl < j + length cs)"
proof (induction cs arbitrary: j md cl)
  case Nil
  then show ?case by simp
next
  case (Cons c cs)
  show ?case
    using Cons.IH [of "j + 1" "Some (distance3 pixel c)" j] Cons.IH [of "j + 1" md cl]
    by auto
qed

lemma closest_in_range:
  "centroids \<noteq> [] \<Longrightarrow> closestFrom pixel centroids 0 None 0 < length centroids"
  using closestFrom_range [of pixel centroids 0 None 0] by auto

lemma assign_fold:
  assumes "centroids \<noteq> []" and "length clusters = length centroids"
    and "list_all (list_all P) clusters" and "list_all P ps"
  shows "\<exists>clusters'. foldl (pushPixel centroids) (Inr clusters) ps = Inr clusters'
           \<and> length clusters' = length centroids \<and> list_all (list_all P) clusters'"
  using assms(2,3,4)
proof (induction ps arbitrary: clusters)
  case Nil
  then show ?case by simp
next
  case (Cons p ps)
  define c where "c = closestFrom p centroids 0 None 0"
  have c: "c < length clusters" using closest_in_range [OF assms(1)] Cons.prems(1) by (simp add: c_def)
  let ?next = "clusters[c := clusters ! c @ [p]]"
  have step: "pushPixel centroids (Inr clusters) p = Inr ?next"
    using c by (simp add: pushPixel_def c_def Let_def)
  have "list_all P (clusters ! c)" using Cons.prems(2) c by (simp add: list_all_length)
  then have "list_all P (clusters ! c @ [p])" using Cons.prems(3) by simp
  then have "list_all (list_all P) ?next"
    using Cons.prems(2) c by (auto simp: list_all_length nth_list_update)
  moreover have "length ?next = length centroids" using Cons.prems(1) by simp
  ultimately show ?case using Cons.IH [of ?next] Cons.prems(3) step by simp
qed

lemma assignPixels_ok:
  assumes "centroids \<noteq> []" and "length centroids = k" and "list_all P pixels"
  shows "\<exists>clusters. assignPixels pixels k centroids = Inr clusters
           \<and> length clusters = k \<and> list_all (list_all P) clusters"
  using assign_fold [OF assms(1), of "replicate k []" P pixels] assms(2,3)
  by (simp add: assignPixels_def list_all_length)

lemma meanColor_byte:
  assumes "cluster \<noteq> []" and "list_all byteColor cluster"
  shows "byteColor (meanColor cluster)"
proof -
  have 1: "0 \<le> x \<and> x \<le> 255" if "x \<in> set (map fst cluster)" for x
    using that assms(2) by (auto simp: list_all_iff byteColor_def)
  have 2: "0 \<le> x \<and> x \<le> 255" if "x \<in> set (map (\<lambda>p. fst (snd p)) cluster)" for x
    using that assms(2) by (auto simp: list_all_iff byteColor_def)
  have 3: "0 \<le> x \<and> x \<le> 255" if "x \<in> set (map (\<lambda>p. snd (snd p)) cluster)" for x
    using that assms(2) by (auto simp: list_all_iff byteColor_def)
  from assms(1) have ne: "map fst cluster \<noteq> []" "map (\<lambda>p. fst (snd p)) cluster \<noteq> []"
    "map (\<lambda>p. snd (snd p)) cluster \<noteq> []" by simp_all
  from mean_range [OF ne(1) 1] mean_range [OF ne(2) 2] mean_range [OF ne(3) 3]
  show ?thesis by (simp add: meanColor_def byteColor_def)
qed

lemma recompute_ok:
  assumes "list_all byteColor centroids" and "length clusters = length centroids"
    and "list_all (list_all byteColor) clusters"
  shows "length (recompute centroids clusters) = length centroids
         \<and> list_all byteColor (recompute centroids clusters)"
proof -
  have each: "byteColor (if length (clusters ! j) > 0 then meanColor (clusters ! j)
                         else centroids ! j)"
    if "j < length centroids" for j
  proof (cases "clusters ! j = []")
    case True
    then show ?thesis using assms(1) that by (simp add: list_all_length)
  next
    case False
    moreover have "list_all byteColor (clusters ! j)"
      using assms(2,3) that by (simp add: list_all_length)
    ultimately show ?thesis using meanColor_byte by simp
  qed
  have "list_all byteColor (recompute centroids clusters)"
    unfolding recompute_def list_all_iff
  proof
    fix c
    assume "c \<in> set (map (\<lambda>j. if length (clusters ! j) > 0 then meanColor (clusters ! j)
                                 else centroids ! j) [0 ..< length centroids])"
    then obtain j where j: "j < length centroids"
      and c: "c = (if length (clusters ! j) > 0 then meanColor (clusters ! j) else centroids ! j)"
      by auto
    from each [OF j] show "byteColor c" by (simp only: c)
  qed
  then show ?thesis by (simp add: recompute_def)
qed

lemma iterateKMeans_ok:
  assumes "centroids \<noteq> []" and "length centroids = k" and "list_all byteColor centroids"
    and "list_all byteColor pixels"
  shows "\<exists>cs. iterateKMeans n pixels k centroids = Inr cs \<and> length cs = k
            \<and> list_all byteColor cs"
  using assms(1,2,3)
proof (induction n arbitrary: centroids)
  case 0
  then show ?case by simp
next
  case (Suc n)
  from assignPixels_ok [OF Suc.prems(1,2) assms(4)]
  obtain clusters where cl: "assignPixels pixels k centroids = Inr clusters"
    "length clusters = k" "list_all (list_all byteColor) clusters" by blast
  from recompute_ok [OF Suc.prems(3) _ cl(3)] cl(2) Suc.prems(2)
  have r: "length (recompute centroids clusters) = k"
    "list_all byteColor (recompute centroids clusters)" by simp_all
  with Suc.prems(1,2) have "recompute centroids clusters \<noteq> []" by auto
  from Suc.IH [OF this r] cl(1) show ?case by simp
qed

lemma retainedPixels_byte: "list_all byteColor (retainedPixels d)"
proof -
  have "byteColor (real r, real g, real b)" if "(r, g, b, a) \<in> set (rgbaPixels d)" for r g b a
    using rgbaPixels_bytes [OF that] by (simp add: byteColor_def)
  then show ?thesis by (auto simp: retainedPixels_def list_all_iff)
qed

lemma isHex_zero: "isHex CHR ''0''"
  by (simp add: isHex_def)

lemma hexDigit_isHex: "k < 16 \<Longrightarrow> isHex (hexDigit k)"
  unfolding isHex_def hexDigit_def by (rule nth_mem) simp

lemma toString16_byte:
  assumes "n < 256"
  shows "length (padStart2 (toString16 n)) = 2 \<and> list_all isHex (padStart2 (toString16 n))"
proof (cases "n < 16")
  case True
  then show ?thesis
    by (simp add: toString16.simps [of n] padStart2_def hexDigit_isHex isHex_zero)
next
  case False
  from assms have d: "n div 16 < 16" by simp
  have "toString16 n = [hexDigit (n div 16), hexDigit (n mod 16)]"
    using False d by (simp add: toString16.simps [of n] toString16.simps [of "n div 16"])
  then show ?thesis using d by (simp add: padStart2_def hexDigit_isHex)
qed

lemma channelHex_ok:
  assumes "0 \<le> c" and "c \<le> 255"
  shows "length (channelHex c) = 2 \<and> list_all isHex (channelHex c)"
proof -
  have "\<lfloor>c + 1 / 2\<rfloor> < 256" using assms(2) by (simp add: floor_less_iff)
  moreover have "0 \<le> \<lfloor>c + 1 / 2\<rfloor>" using assms(1) by simp
  ultimately have "nat \<lfloor>c + 1 / 2\<rfloor> < 256" by (simp add: nat_less_iff)
  from toString16_byte [OF this] show ?thesis by (simp add: channelHex_def)
qed

lemma colorString_ok: "byteColor c \<Longrightarrow> hexColor (colorString c)"
proof -
  assume b: "byteColor c"
  obtain r g bl where c: "c = (r, g, bl)" by (cases c) auto
  from b c have "0 \<le> r" "r \<le> 255" "0 \<le> g" "g \<le> 255" "0 \<le> bl" "bl \<le> 255"
    by (simp_all add: byteColor_def)
  with channelHex_ok [of r] channelHex_ok [of g] channelHex_ok [of bl]
  show ?thesis by (simp add: c colorString_def hexColor_def)
qed

text \<open>
  With at least one retained pixel, and draws in [0,1) as \<^verbatim>\<open>Math.random\<close> gives
  them, the palette extraction returns exactly five colour strings.
\<close>

lemma extractColorPalette_five_colors:
  assumes "retainedPixels d \<noteq> []" and "\<And>i. i < 5 \<Longrightarrow> 0 \<le> rand i \<and> rand i < 1"
  shows "\<exists>pal. extractColorPalette d rand = Inr pal \<and> length pal = 5 \<and> list_all hexColor pal"
proof -
  let ?px = "retainedPixels d"
  from initCentroids_ok [OF assms(1), of 5 rand] assms(2)
  obtain cs where cs: "initCentroids ?px 5 rand = Inr cs" "length cs = 5"
    "list_all (\<lambda>c. c \<in> set ?px) cs" by blast
  have px: "list_all byteColor ?px" by (rule retainedPixels_byte)
  with cs(3) have bc: "list_all byteColor cs" by (auto simp: list_all_iff)
  from cs(2) have ne: "cs \<noteq> []" by auto
  from iterateKMeans_ok [OF ne cs(2) bc px, of 20]
  obtain fin where fin: "iterateKMeans 20 ?px 5 cs = Inr fin" "length fin = 5"
    "list_all byteColor fin" by blast
  have "list_all hexColor (map colorString fin)"
    using fin(3) colorString_ok by (auto simp: list_all_iff)
  with cs(1) fin(1,2) show ?thesis
    by (simp add: extractColorPalette_def kMeansClustering_def)
qed

lemma extractColorPalette_five_colors_example:
  "retainedPixels blackWhiteBuffer \<noteq> []
   \<and> (\<exists>pal. extractColorPalette blackWhiteBuffer (\<lambda>i. 0) = Inr pal \<and> length pal = 5
          \<and> list_all hexColor pal)"
proof -
  have "retainedPixels blackWhiteBuffer \<noteq> []" by (simp add: retained_blackWhite)
  with extractColorPalette_five_colors [of blackWhiteBuffer "\<lambda>i. 0"] show ?thesis by simp
qed

text \<open>
  C9. On a fully transparent 150x150 buffer no pixel is retained, the first centroid
  pick reads \<^verbatim>\<open>pixels[0]\<close> of an empty array and spreading it throws: the palette
  extraction returns no palette at all.
\<close>

theorem extractColorPalette_transparent_throws:
  "retainedPixels transparentBuffer = []
   \<and> extractColorPalette transparentBuffer rand
       = Inl (TypeError ''randomPixel is not iterable'')"
  by (simp add: extractColorPalette_def kMeansClustering_def initCentroids_def
      retained_transparentBuffer pickPixel_def pickIndex_def upt_rec numeral_eq_Suc)

text \<open>
  C4 (as amended). The hash and the quality record of a buffer never depend on the values
  of \<^verbatim>\<open>Math.random\<close>; the palette depends on them only through the five pixels
  picked as initial centroids: two invocations on the same buffers whose draws pick the
  same five indices return the same three results.
\<close>

theorem pixelStages_repeatable:
  "fst (pixelStages hb qb pb rand1) = fst (pixelStages hb qb pb rand2)
   \<and> fst (snd (pixelStages hb qb pb rand1)) = fst (snd (pixelStages hb qb pb rand2))
   \<and> (map (\<lambda>i. pickIndex (retainedPixels pb) (rand1 i)) [0 ..< 5]
        = map (\<lambda>i. pickIndex (retainedPixels pb) (rand2 i)) [0 ..< 5]
      \<longrightarrow> pixelStages hb qb pb rand1 = pixelStages hb qb pb rand2)"
proof -
  have "initCentroids (retainedPixels pb) 5 rand1 = initCentroids (retainedPixels pb) 5 rand2"
    if "map (\<lambda>i. pickIndex (retainedPixels pb) (rand1 i)) [0 ..< 5]
        = map (\<lambda>i. pickIndex (retainedPixels pb) (rand2 i)) [0 ..< 5]"
  proof -
    from that have "\<forall>i \<in> set [0 ..< 5]. pickIndex (retainedPixels pb) (rand1 i)
                      = pickIndex (retainedPixels pb) (rand2 i)"
      by (simp only: map_eq_conv)
    then have "map (\<lambda>i. pickPixel (retainedPixels pb) (rand1 i)) [0 ..< 5]
               = map (\<lambda>i. pickPixel (retainedPixels pb) (rand2 i)) [0 ..< 5]"
      by (simp only: map_eq_conv pickPixel_def) simp
    then show ?thesis by (simp only: initCentroids_def)
  qed
  then show ?thesis
    by (simp add: pixelStages_def extractColorPalette_def kMeansClustering_def)
qed

theorem pixelStages_repeatable_witness:
  "map (\<lambda>i. pickIndex (retainedPixels blackWhiteBuffer) ((\<lambda>i. 0) i)) [0 ..< 5]
     = map (\<lambda>i. pickIndex (retainedPixels blackWhiteBuffer) ((\<lambda>i. 1 / 4) i)) [0 ..< 5]
   \<and> pixelStages blackWhiteBuffer onePixel blackWhiteBuffer (\<lambda>i. 0)
     = pixelStages blackWhiteBuffer onePixel blackWhiteBuffer (\<lambda>i. 1 / 4)"
proof -
  have p: "map (\<lambda>i. pickIndex (retainedPixels blackWhiteBuffer) ((\<lambda>i. 0) i)) [0 ..< 5]
     = map (\<lambda>i. pickIndex (retainedPixels blackWhiteBuffer) ((\<lambda>i. 1 / 4) i)) [0 ..< 5]"
    by (simp add: retained_blackWhite pickIndex_def)
  with pixelStages_repeatable
         [of blackWhiteBuffer onePixel blackWhiteBuffer "\<lambda>i. 0" "\<lambda>i. 1 / 4"]
  show ?thesis by blast
qed

text \<open>
  The claim as stated fails for the palette: on one buffer, draws that are all 0 and
  draws that are all 0.5 give different palettes.
\<close>

theorem palette_not_deterministic_counterexample:
  "extractColorPalette blackWhiteBuffer (\<lambda>i. 0)
     = Inr [''#ffffff'', ''#000000'', ''#000000'', ''#000000'', ''#000000'']
   \<and> extractColorPalette blackWhiteBuffer (\<lambda>i. 1 / 2)
     = Inr [''#000000'', ''#ffffff'', ''#ffffff'', ''#ffffff'', ''#ffffff'']
   \<and> extractColorPalette blackWhiteBuffer (\<lambda>i. 0)
     \<noteq> extractColorPalette blackWhiteBuffer (\<lambda>i. 1 / 2)"
  by (simp add: extractColorPalette_def retained_blackWhite kMeans_blackWhite_first
      kMeans_blackWhite_second colorString_black colorString_white)

section \<open>Analysis orchestrator: properties\<close>

lemmas analysis_if =
  if_distrib [of classification] if_distrib [of description] if_distrib [of objects]
  if_distrib [of nsfw] if_distrib [of faces] if_distrib [of ocrText] if_distrib [of pHash]
  if_distrib [of quality] if_distrib [of palette] if_distrib [of error]

lemma runStages_step: "stage' a = Inr a' \<Longrightarrow> runStages (stage' # rest) a = runStages rest a'"
  by simp

lemma runStages_throw:
  "stage' a = Inl e \<Longrightarrow>
   runStages (stage' # rest) a = a\<lparr> error := Some (''Analysis error: '' @ errorText e) \<rparr>"
  by simp

lemma six_provider_stages:
  assumes "rest = drop 6 (stages m st env f)"
  shows "\<exists>a6. runStages (stages m st env f) (blankAnalysis f dims) = runStages rest a6
           \<and> providerFields m st env f a6 \<and> error a6 = None \<and> pHash a6 = None
           \<and> quality a6 = None \<and> palette a6 = None"
proof -
  define a0 where "a0 = blankAnalysis f dims"
  define a1 where "a1 = (if runClassifier st then a0\<lparr> classification := Some (classifyImage m env f) \<rparr> else a0)"
  define a2 where "a2 = (if runCaptioner st then a1\<lparr> description := generateCaption m env \<rparr> else a1)"
  define a3 where "a3 = (if runObjectDetection st \<and> objectDetector m
               then a2\<lparr> objects := Some (detectObjects env) \<rparr> else a2)"
  define a4 where "a4 = (if runNsfw st then a3\<lparr> nsfw := Some (detectNSFW m (nsfwCall env)) \<rparr> else a3)"
  define a5 where "a5 = (if runFaceDetection st then a4\<lparr> faces := Some (detectFaces m env f) \<rparr> else a4)"
  define a6 where "a6 = (if runOcr st then a5\<lparr> ocrText := Some (extractText m env) \<rparr> else a5)"
  have "runStages (stages m st env f) a0 = runStages rest a6"
    unfolding stages_def assms
    apply (subst runStages_step [where a' = a1], simp add: a1_def)
    apply (subst runStages_step [where a' = a2], simp add: a2_def)
    apply (subst runStages_step [where a' = a3], simp add: a3_def)
    apply (subst runStages_step [where a' = a4], simp add: a4_def)
    apply (subst runStages_step [where a' = a5], simp add: a5_def)
    apply (subst runStages_step [where a' = a6], simp add: a6_def)
    apply simp
    done
  moreover have "providerFields m st env f a6" "error a6 = None" "pHash a6 = None"
    "quality a6 = None" "palette a6 = None"
    by (simp_all add: providerFields_def a6_def a5_def a4_def a3_def a2_def a1_def a0_def
        blankAnalysis_def analysis_if)
  ultimately show ?thesis unfolding a0_def by blast
qed

lemma providerFields_later:
  "providerFields m st env f a \<Longrightarrow> providerFields m st env f (a\<lparr> pHash := x \<rparr>)"
  "providerFields m st env f a \<Longrightarrow> providerFields m st env f (a\<lparr> quality := y \<rparr>)"
  "providerFields m st env f a \<Longrightarrow> providerFields m st env f (a\<lparr> palette := z \<rparr>)"
  "providerFields m st env f a \<Longrightarrow> providerFields m st env f (a\<lparr> error := w \<rparr>)"
  "providerFields m st env f a \<Longrightarrow> providerFields m st env f (a\<lparr> processingTime := t \<rparr>)"
  by (simp_all add: providerFields_def)

lemma analyze_all_stages:
  assumes "imageLoad env = Inr dims"
    and "runDuplicateDetection st \<longrightarrow> hashStage env = Inr h"
    and "runQualityAnalysis st \<longrightarrow> qualityStage env = Inr q"
    and "runColorPalette st \<longrightarrow> paletteStage env = Inr p"
  shows "\<exists>a. analyze True m st env f = Inr a \<and> error a = None \<and> providerFields m st env f a
       \<and> pHash a = (if runDuplicateDetection st then Some h else None)
       \<and> quality a = (if runQualityAnalysis st then Some q else None)
       \<and> palette a = (if runColorPalette st then Some p else None)"
proof -
  obtain a6 where run: "runStages (stages m st env f) (blankAnalysis f dims)
                        = runStages (drop 6 (stages m st env f)) a6"
    and a6: "providerFields m st env f a6" "error a6 = None" "pHash a6 = None"
      "quality a6 = None" "palette a6 = None"
    using six_provider_stages [OF refl] by blast
  define a7 where "a7 = (if runDuplicateDetection st then a6\<lparr> pHash := Some h \<rparr> else a6)"
  define a8 where "a8 = (if runQualityAnalysis st then a7\<lparr> quality := Some q \<rparr> else a7)"
  define a9 where "a9 = (if runColorPalette st then a8\<lparr> palette := Some p \<rparr> else a8)"
  have "runStages (drop 6 (stages m st env f)) a6 = a9"
    unfolding stages_def
    apply (simp del: runStages.simps)
    apply (subst runStages_step [where a' = a7], simp add: a7_def assms cong: if_cong)
    apply (subst runStages_step [where a' = a8], simp add: a8_def assms cong: if_cong)
    apply (subst runStages_step [where a' = a9], simp add: a9_def assms cong: if_cong)
    apply simp
    done
  with run assms(1) have r: "analyze True m st env f = Inr (a9\<lparr> processingTime := elapsedMs env \<rparr>)"
    by (simp add: analyze_def)
  have "error a9 = None" "providerFields m st env f a9"
    "pHash a9 = (if runDuplicateDetection st then Some h else None)"
    "quality a9 = (if runQualityAnalysis st then Some q else None)"
    "palette a9 = (if runColorPalette st then Some p else None)"
    using a6 by (simp_all add: a9_def a8_def a7_def providerFields_later)
  with r show ?thesis by (simp add: providerFields_later)
qed

lemma analyze_hash_throws:
  assumes "imageLoad env = Inr dims" and "runDuplicateDetection st" and "hashStage env = Inl e"
  shows "\<exists>a. analyze True m st env f = Inr a
       \<and> error a = Some (''Analysis error: '' @ errorText e) \<and> providerFields m st env f a
       \<and> pHash a = None \<and> quality a = None \<and> palette a = None"
proof -
  obtain a6 where run: "runStages (stages m st env f) (blankAnalysis f dims)
                        = runStages (drop 6 (stages m st env f)) a6"
    and a6: "providerFields m st env f a6" "error a6 = None" "pHash a6 = None"
      "quality a6 = None" "palette a6 = None"
    using six_provider_stages [OF refl] by blast
  have "runStages (drop 6 (stages m st env f)) a6
        = a6\<lparr> error := Some (''Analysis error: '' @ errorText e) \<rparr>"
    unfolding stages_def
    apply (simp del: runStages.simps)
    apply (subst runStages_throw [where e = e], simp add: assms)
    apply simp
    done
  with run assms(1) have "analyze True m st env f
      = Inr (a6\<lparr> error := Some (''Analysis error: '' @ errorText e), processingTime := elapsedMs env \<rparr>)"
    by (simp add: analyze_def)
  with a6 show ?thesis by (simp add: providerFields_later)
qed

lemma analyze_quality_throws:
  assumes "imageLoad env = Inr dims"
    and "runDuplicateDetection st \<longrightarrow> hashStage env = Inr h"
    and "runQualityAnalysis st" and "qualityStage env = Inl e"
  shows "\<exists>a. analyze True m st env f = Inr a
       \<and> error a = Some (''Analysis error: '' @ errorText e) \<and> providerFields m st env f a
       \<and> pHash a = (if runDuplicateDetection st then Some h else None)
       \<and> quality a = None \<and> palette a = None"
proof -
  obtain a6 where run: "runStages (stages m st env f) (blankAnalysis f dims)
                        = runStages (drop 6 (stages m st env f)) a6"
    and a6: "providerFields m st env f a6" "error a6 = None" "pHash a6 = None"
      "quality a6 = None" "palette a6 = None"
    using six_provider_stages [OF refl] by blast
  define a7 where "a7 = (if runDuplicateDetection st then a6\<lparr> pHash := Some h \<rparr> else a6)"
  have "runStages (drop 6 (stages m st env f)) a6
        = a7\<lparr> error := Some (''Analysis error: '' @ errorText e) \<rparr>"
    unfolding stages_def
    apply (simp del: runStages.simps)
    apply (subst runStages_step [where a' = a7], simp add: a7_def assms cong: if_cong)
    apply (subst runStages_throw [where e = e], simp add: assms)
    apply simp
    done
  with run assms(1) have r: "analyze True m st env f
      = Inr (a7\<lparr> error := Some (''Analysis error: '' @ errorText e), processingTime := elapsedMs env \<rparr>)"
    by (simp add: analyze_def)
  have "providerFields m st env f a7"
    "pHash a7 = (if runDuplicateDetection st then Some h else None)"
    "quality a7 = None" "palette a7 = None"
    using a6 by (simp_all add: a7_def providerFields_later)
  with r show ?thesis by (simp add: providerFields_later)
qed

lemma analyze_palette_throws:
  assumes "imageLoad env = Inr dims"
    and "runDuplicateDetection st \<longrightarrow> hashStage env = Inr h"
    and "runQualityAnalysis st \<longrightarrow> qualityStage env = Inr q"
    and "runColorPalette st" and "paletteStage env = Inl e"
  shows "\<exists>a. analyze True m st env f = Inr a
       \<and> error a = Some (''Analysis error: '' @ errorText e) \<and> providerFields m st env f a
       \<and> pHash a = (if runDuplicateDetection st then Some h else None)
       \<and> quality a = (if runQualityAnalysis st then Some q else None)
       \<and> palette a = None"
proof -
  obtain a6 where run: "runStages (stages m st env f) (blankAnalysis f dims)
                        = runStages (drop 6 (stages m st env f)) a6"
    and a6: "providerFields m st env f a6" "error a6 = None" "pHash a6 = None"
      "quality a6 = None" "palette a6 = None"
    using six_provider_stages [OF refl] by blast
  define a7 where "a7 = (if runDuplicateDetection st then a6\<lparr> pHash := Some h \<rparr> else a6)"
  define a8 where "a8 = (if runQualityAnalysis st then a7\<lparr> quality := Some q \<rparr> else a7)"
  have "runStages (drop 6 (stages m st env f)) a6
        = a8\<lparr> error := Some (''Analysis error: '' @ errorText e) \<rparr>"
    unfolding stages_def
    apply (simp del: runStages.simps)
    apply (subst runStages_step [where a' = a7], simp add: a7_def assms cong: if_cong)
    apply (subst runStages_step [where a' = a8], simp add: a8_def assms cong: if_cong)
    apply (subst runStages_throw [where e = e], simp add: assms)
    apply simp
    done
  with run assms(1) have r: "analyze True m st env f
      = Inr (a8\<lparr> error := Some (''Analysis error: '' @ errorText e), processingTime := elapsedMs env \<rparr>)"
    by (simp add: analyze_def)
  have "providerFields m st env f a8"
    "pHash a8 = (if runDuplicateDetection st then Some h else None)"
    "quality a8 = (if runQualityAnalysis st then Some q else None)"
    "palette a8 = None"
    using a6 by (simp_all add: a8_def a7_def providerFields_later)
  with r show ?thesis by (simp add: providerFields_later)
qed

lemma provider_throw_fallback:
  "classifierCall env = Inl e \<Longrightarrow> classifyImage m env f = fallbackClassification f"
  "captionerCall env = Inl e \<Longrightarrow> generateCaption m env = fallbackCaption env"
  "objectDetectorCall env = Inl e \<Longrightarrow> detectObjects env = []"
  "nsfwCall env = Inl e \<Longrightarrow> detectNSFW m (nsfwCall env) = fallbackNsfw"
  "faceCall env = Inl e \<Longrightarrow> detectFaces m env f = fallbackFaceDetection f"
  "ocrCall env = Inl e \<Longrightarrow> extractText m env = []"
  by (simp_all add: classifyImage_def generateCaption_def detectObjects_def detectNSFW_def
      detectFaces_def extractText_def)

lemma palette_blackWhite_zero:
  "extractColorPalette blackWhiteBuffer (\<lambda>i. 0)
   = Inr [''#ffffff'', ''#000000'', ''#000000'', ''#000000'', ''#000000'']"
  by (simp add: extractColorPalette_def retained_blackWhite kMeans_blackWhite_first
      colorString_black colorString_white)

lemma palette_none_retained:
  "retainedPixels d = [] \<Longrightarrow>
   extractColorPalette d rand = Inl (TypeError ''randomPixel is not iterable'')"
  by (simp add: extractColorPalette_def kMeansClustering_def initCentroids_def
      pickPixel_def pickIndex_def upt_rec numeral_eq_Suc)

lemma fallbackClassification_sample:
  "fallbackClassification sampleFile = [\<lparr> label = ''image'', score = 6 / 10 \<rparr>]"
  by (simp add: fallbackClassification_def sampleFile_def toLowerCase_def lowerChar_def)

lemma sample_stages:
  "imageLoad providersThrow = Inr (640, 480)"
  "hashStage providersThrow = Inr (generatePHash hashBuffer)"
  "qualityStage providersThrow = Inr (analyzeQuality onePixel)"
  "paletteStage providersThrow
   = Inr [''#ffffff'', ''#000000'', ''#000000'', ''#000000'', ''#000000'']"
  "imageLoad hashCanvasThrows = Inr (640, 480)"
  "hashStage hashCanvasThrows = Inl (DomError ''SecurityError'' ''The operation is insecure.'')"
  "qualityStage hashCanvasThrows = Inr (analyzeQuality onePixel)"
  "paletteStage hashCanvasThrows
   = Inr [''#ffffff'', ''#000000'', ''#000000'', ''#000000'', ''#000000'']"
  "imageLoad qualityCanvasThrows = Inr (0, 0)"
  "hashStage qualityCanvasThrows = Inr (generatePHash (transparentPixels 1024))"
  "qualityStage qualityCanvasThrows
   = Inl (DomError ''IndexSizeError''
       ''Index or size is negative or greater than the allowed amount'')"
  "imageLoad paletteThrows = Inr (640, 480)"
  "hashStage paletteThrows = Inr (generatePHash hashBuffer)"
  "qualityStage paletteThrows = Inr (analyzeQuality onePixel)"
  "paletteStage paletteThrows = Inl (TypeError ''randomPixel is not iterable'')"
  by (simp_all add: providersThrow_def hashCanvasThrows_def qualityCanvasThrows_def
      paletteThrows_def hashStage_def qualityStage_def paletteStage_def
      palette_blackWhite_zero palette_none_retained retained_transparentBuffer)

lemma sample_fallbacks:
  "classifierCall providersThrow = Inl (ProviderError ''inference failed'')"
  "captionerCall providersThrow = Inl (ProviderError ''inference failed'')"
  "objectDetectorCall providersThrow = Inl (ProviderError ''inference failed'')"
  "nsfwCall providersThrow = Inl (ProviderError ''inference failed'')"
  "faceCall providersThrow = Inl (ProviderError ''inference failed'')"
  "ocrCall providersThrow = Inl (ProviderError ''inference failed'')"
  by (simp_all add: providersThrow_def)

lemma sample_fallback_values:
  "fallbackCaption providersThrow = Some ''A clear and well-composed image''"
  "fallbackFaceDetection sampleFile = []"
  by (simp_all add: fallbackCaption_def providersThrow_def fallbackFaceDetection_def
      sampleFile_def toLowerCase_def lowerChar_def)

lemma sample_provider_fields:
  assumes "providerFields allModels everyStage env sampleFile a"
    and "classifierCall env = classifierCall providersThrow"
    and "captionerCall env = captionerCall providersThrow"
    and "objectDetectorCall env = objectDetectorCall providersThrow"
    and "nsfwCall env = nsfwCall providersThrow"
    and "faceCall env = faceCall providersThrow"
    and "ocrCall env = ocrCall providersThrow"
    and "captionDraw env = 0"
  shows "classification a = Some [\<lparr> label = ''image'', score = 6 / 10 \<rparr>]
       \<and> description a = Some ''A clear and well-composed image''
       \<and> objects a = Some [] \<and> nsfw a = Some fallbackNsfw \<and> faces a = Some []
       \<and> ocrText a = Some []"
  using assms
  by (simp add: providerFields_def everyStage_def allModels_def classifyImage_def
      generateCaption_def detectObjects_def detectNSFW_def detectFaces_def extractText_def
      providersThrow_def fallbackClassification_sample sample_fallback_values
      fallbackCaption_def)

lemma tenth:
  "A1 \<and> A2 \<and> A3 \<and> A4 \<and> A5 \<and> A6 \<and> A7 \<and> A8 \<and> A9 \<and> A10 \<Longrightarrow> A8"
  "A1 \<and> A2 \<and> A3 \<and> A4 \<and> A5 \<and> A6 \<and> A7 \<and> A8 \<and> A9 \<and> A10 \<Longrightarrow> A9"
  "A1 \<and> A2 \<and> A3 \<and> A4 \<and> A5 \<and> A6 \<and> A7 \<and> A8 \<and> A9 \<and> A10 \<Longrightarrow> A10"
  "A1 \<and> A2 \<and> A3 \<and> A4 \<and> A5 \<and> A6 \<and> A7 \<and> A8 \<and> A9 \<and> A10
   \<Longrightarrow> A2 \<and> A3 \<and> A4 \<and> A5 \<and> A6 \<and> A7"
  by simp_all

text \<open>
  C8 (as amended). Whatever the provider calls do, throwing included, the six
  provider-backed stages never leave \<^verbatim>\<open>analyze\<close>: a provider that throws makes its
  stage return the fallback, no error is recorded, and every enabled stage populates its
  field, the pixel stages too when they succeed. An exception of the hash, the quality
  or the palette stage is caught by the one handler of the whole block instead: the
  fields set before it stay, the error text is recorded, and the stages after it do not
  run.
\<close>

theorem provider_failures_isolated:
  assumes "imageLoad env = Inr dims"
  shows "((runDuplicateDetection st \<longrightarrow> hashStage env = Inr h)
          \<and> (runQualityAnalysis st \<longrightarrow> qualityStage env = Inr q)
          \<and> (runColorPalette st \<longrightarrow> paletteStage env = Inr p)
          \<longrightarrow> (\<exists>a. analyze True m st env f = Inr a \<and> error a = None
                 \<and> providerFields m st env f a
                 \<and> pHash a = (if runDuplicateDetection st then Some h else None)
                 \<and> quality a = (if runQualityAnalysis st then Some q else None)
                 \<and> palette a = (if runColorPalette st then Some p else None)))
       \<and> (classifierCall env = Inl e' \<longrightarrow> classifyImage m env f = fallbackClassification f)
       \<and> (captionerCall env = Inl e' \<longrightarrow> generateCaption m env = fallbackCaption env)
       \<and> (objectDetectorCall env = Inl e' \<longrightarrow> detectObjects env = [])
       \<and> (nsfwCall env = Inl e' \<longrightarrow> detectNSFW m (nsfwCall env) = fallbackNsfw)
       \<and> (faceCall env = Inl e' \<longrightarrow> detectFaces m env f = fallbackFaceDetection f)
       \<and> (ocrCall env = Inl e' \<longrightarrow> extractText m env = [])
       \<and> (runDuplicateDetection st \<and> hashStage env = Inl e
          \<longrightarrow> (\<exists>a. analyze True m st env f = Inr a
                 \<and> error a = Some (''Analysis error: '' @ errorText e)
                 \<and> providerFields m st env f a
                 \<and> pHash a = None \<and> quality a = None \<and> palette a = None))
       \<and> ((runDuplicateDetection st \<longrightarrow> hashStage env = Inr h)
          \<and> runQualityAnalysis st \<and> qualityStage env = Inl e
          \<longrightarrow> (\<exists>a. analyze True m st env f = Inr a
                 \<and> error a = Some (''Analysis error: '' @ errorText e)
                 \<and> providerFields m st env f a
                 \<and> pHash a = (if runDuplicateDetection st then Some h else None)
                 \<and> quality a = None \<and> palette a = None))
       \<and> ((runDuplicateDetection st \<longrightarrow> hashStage env = Inr h)
          \<and> (runQualityAnalysis st \<longrightarrow> qualityStage env = Inr q)
          \<and> runColorPalette st \<and> paletteStage env = Inl e
          \<longrightarrow> (\<exists>a. analyze True m st env f = Inr a
                 \<and> error a = Some (''Analysis error: '' @ errorText e)
                 \<and> providerFields m st env f a
                 \<and> pHash a = (if runDuplicateDetection st then Some h else None)
                 \<and> quality a = (if runQualityAnalysis st then Some q else None)
                 \<and> palette a = None))"
proof (intro conjI impI)
  assume "(runDuplicateDetection st \<longrightarrow> hashStage env = Inr h)
          \<and> (runQualityAnalysis st \<longrightarrow> qualityStage env = Inr q)
          \<and> (runColorPalette st \<longrightarrow> paletteStage env = Inr p)"
  then show "\<exists>a. analyze True m st env f = Inr a \<and> error a = None
                 \<and> providerFields m st env f a
                 \<and> pHash a = (if runDuplicateDetection st then Some h else None)
                 \<and> quality a = (if runQualityAnalysis st then Some q else None)
                 \<and> palette a = (if runColorPalette st then Some p else None)"
    using analyze_all_stages [OF assms, where h = h and q = q and p = p] by blast
next
  assume "runDuplicateDetection st \<and> hashStage env = Inl e"
  then show "\<exists>a. analyze True m st env f = Inr a
                 \<and> error a = Some (''Analysis error: '' @ errorText e)
                 \<and> providerFields m st env f a
                 \<and> pHash a = None \<and> quality a = None \<and> palette a = None"
    using analyze_hash_throws [OF assms] by blast
next
  assume "(runDuplicateDetection st \<longrightarrow> hashStage env = Inr h)
          \<and> runQualityAnalysis st \<and> qualityStage env = Inl e"
  then show "\<exists>a. analyze True m st env f = Inr a
                 \<and> error a = Some (''Analysis error: '' @ errorText e)
                 \<and> providerFields m st env f a
                 \<and> pHash a = (if runDuplicateDetection st then Some h else None)
                 \<and> quality a = None \<and> palette a = None"
    using analyze_quality_throws [OF assms, where h = h] by blast
next
  assume "(runDuplicateDetection st \<longrightarrow> hashStage env = Inr h)
          \<and> (runQualityAnalysis st \<longrightarrow> qualityStage env = Inr q)
          \<and> runColorPalette st \<and> paletteStage env = Inl e"
  then show "\<exists>a. analyze True m st env f = Inr a
                 \<and> error a = Some (''Analysis error: '' @ errorText e)
                 \<and> providerFields m st env f a
                 \<and> pHash a = (if runDuplicateDetection st then Some h else None)
                 \<and> quality a = (if runQualityAnalysis st then Some q else None)
                 \<and> palette a = None"
    using analyze_palette_throws [OF assms, where h = h and q = q] by blast
qed (simp_all add: classifyImage_def generateCaption_def detectObjects_def detectNSFW_def
    detectFaces_def extractText_def)

theorem provider_failures_isolated_witness:
  "imageLoad providersThrow = Inr (640, 480)
   \<and> classifierCall providersThrow = Inl (ProviderError ''inference failed'')
   \<and> captionerCall providersThrow = Inl (ProviderError ''inference failed'')
   \<and> objectDetectorCall providersThrow = Inl (ProviderError ''inference failed'')
   \<and> nsfwCall providersThrow = Inl (ProviderError ''inference failed'')
   \<and> faceCall providersThrow = Inl (ProviderError ''inference failed'')
   \<and> ocrCall providersThrow = Inl (ProviderError ''inference failed'')
   \<and> classifyImage allModels providersThrow sampleFile = [\<lparr> label = ''image'', score = 6 / 10 \<rparr>]
   \<and> generateCaption allModels providersThrow = Some ''A clear and well-composed image''
   \<and> detectObjects providersThrow = []
   \<and> detectNSFW allModels (nsfwCall providersThrow) = fallbackNsfw
   \<and> detectFaces allModels providersThrow sampleFile = []
   \<and> extractText allModels providersThrow = []
   \<and> (\<exists>a. analyze True allModels everyStage providersThrow sampleFile = Inr a
          \<and> error a = None
          \<and> classification a = Some [\<lparr> label = ''image'', score = 6 / 10 \<rparr>]
          \<and> description a = Some ''A clear and well-composed image''
          \<and> objects a = Some [] \<and> nsfw a = Some fallbackNsfw \<and> faces a = Some []
          \<and> ocrText a = Some []
          \<and> pHash a = Some (generatePHash hashBuffer)
          \<and> quality a = Some (analyzeQuality onePixel)
          \<and> palette a = Some [''#ffffff'', ''#000000'', ''#000000'', ''#000000'', ''#000000''])
   \<and> (\<exists>a. analyze True allModels everyStage hashCanvasThrows sampleFile = Inr a
          \<and> error a = Some ''Analysis error: SecurityError: The operation is insecure.''
          \<and> classification a = Some [\<lparr> label = ''image'', score = 6 / 10 \<rparr>]
          \<and> ocrText a = Some []
          \<and> pHash a = None \<and> quality a = None \<and> palette a = None)
   \<and> (\<exists>a. analyze True allModels everyStage qualityCanvasThrows sampleFile = Inr a
          \<and> error a = Some (''Analysis error: IndexSizeError: ''
                            @ ''Index or size is negative or greater than the allowed amount'')
          \<and> classification a = Some [\<lparr> label = ''image'', score = 6 / 10 \<rparr>]
          \<and> ocrText a = Some []
          \<and> pHash a = Some (generatePHash (transparentPixels 1024))
          \<and> quality a = None \<and> palette a = None)
   \<and> (\<exists>a. analyze True allModels everyStage paletteThrows sampleFile = Inr a
          \<and> error a = Some ''Analysis error: TypeError: randomPixel is not iterable''
          \<and> classification a = Some [\<lparr> label = ''image'', score = 6 / 10 \<rparr>]
          \<and> ocrText a = Some []
          \<and> pHash a = Some (generatePHash hashBuffer)
          \<and> quality a = Some (analyzeQuality onePixel)
          \<and> palette a = None)"
proof -
  have on: "runDuplicateDetection everyStage" "runQualityAnalysis everyStage"
    "runColorPalette everyStage"
    by (simp_all add: everyStage_def)
  note one = provider_failures_isolated [OF sample_stages(1),
      where h = "generatePHash hashBuffer" and q = "analyzeQuality onePixel"
      and p = "[''#ffffff'', ''#000000'', ''#000000'', ''#000000'', ''#000000'']"
      and m = allModels and st = everyStage and f = sampleFile
      and e' = "ProviderError ''inference failed''"]
  note two = provider_failures_isolated [OF sample_stages(5),
      where m = allModels and st = everyStage and f = sampleFile
      and e = "DomError ''SecurityError'' ''The operation is insecure.''"]
  note three = provider_failures_isolated [OF sample_stages(9),
      where h = "generatePHash (transparentPixels 1024)"
      and m = allModels and st = everyStage and f = sampleFile
      and e = "DomError ''IndexSizeError''
                 ''Index or size is negative or greater than the allowed amount''"]
  note four = provider_failures_isolated [OF sample_stages(12),
      where h = "generatePHash hashBuffer" and q = "analyzeQuality onePixel"
      and m = allModels and st = everyStage and f = sampleFile
      and e = "TypeError ''randomPixel is not iterable''"]
  from one [THEN tenth(4)] sample_fallbacks
  have fb: "classifyImage allModels providersThrow sampleFile
              = [\<lparr> label = ''image'', score = 6 / 10 \<rparr>]"
    "generateCaption allModels providersThrow = Some ''A clear and well-composed image''"
    "detectObjects providersThrow = []"
    "detectNSFW allModels (nsfwCall providersThrow) = fallbackNsfw"
    "detectFaces allModels providersThrow sampleFile = []"
    "extractText allModels providersThrow = []"
    by (simp_all add: fallbackClassification_sample sample_fallback_values)
  have "\<exists>a. analyze True allModels everyStage providersThrow sampleFile = Inr a
          \<and> error a = None \<and> providerFields allModels everyStage providersThrow sampleFile a
          \<and> pHash a = Some (generatePHash hashBuffer)
          \<and> quality a = Some (analyzeQuality onePixel)
          \<and> palette a = Some [''#ffffff'', ''#000000'', ''#000000'', ''#000000'', ''#000000'']"
    using one [THEN conjunct1] sample_stages(2-4) by (simp add: on)
  then obtain a where a: "analyze True allModels everyStage providersThrow sampleFile = Inr a"
    "error a = None" "providerFields allModels everyStage providersThrow sampleFile a"
    "pHash a = Some (generatePHash hashBuffer)" "quality a = Some (analyzeQuality onePixel)"
    "palette a = Some [''#ffffff'', ''#000000'', ''#000000'', ''#000000'', ''#000000'']"
    by blast
  have a': "classification a = Some [\<lparr> label = ''image'', score = 6 / 10 \<rparr>]"
    "description a = Some ''A clear and well-composed image''"
    "objects a = Some []" "nsfw a = Some fallbackNsfw" "faces a = Some []"
    "ocrText a = Some []"
    using sample_provider_fields [OF a(3)] by (simp_all add: providersThrow_def)
  have "\<exists>a. analyze True allModels everyStage hashCanvasThrows sampleFile = Inr a
          \<and> error a = Some (''Analysis error: ''
              @ errorText (DomError ''SecurityError'' ''The operation is insecure.''))
          \<and> providerFields allModels everyStage hashCanvasThrows sampleFile a
          \<and> pHash a = None \<and> quality a = None \<and> palette a = None"
    using two [THEN tenth(1)] sample_stages(6) by (simp add: on)
  then obtain b where b: "analyze True allModels everyStage hashCanvasThrows sampleFile = Inr b"
    "error b = Some (''Analysis error: ''
       @ errorText (DomError ''SecurityError'' ''The operation is insecure.''))"
    "providerFields allModels everyStage hashCanvasThrows sampleFile b"
    "pHash b = None" "quality b = None" "palette b = None"
    by blast
  have b': "classification b = Some [\<lparr> label = ''image'', score = 6 / 10 \<rparr>]"
    "ocrText b = Some []"
    using sample_provider_fields [OF b(3)]
    by (simp_all add: hashCanvasThrows_def providersThrow_def)
  from b(2) have b'': "error b = Some ''Analysis error: SecurityError: The operation is insecure.''"
    by (simp add: errorText_def errorToString_def)
  have "\<exists>a. analyze True allModels everyStage qualityCanvasThrows sampleFile = Inr a
          \<and> error a = Some (''Analysis error: ''
              @ errorText (DomError ''IndexSizeError''
                  ''Index or size is negative or greater than the allowed amount''))
          \<and> providerFields allModels everyStage qualityCanvasThrows sampleFile a
          \<and> pHash a = Some (generatePHash (transparentPixels 1024))
          \<and> quality a = None \<and> palette a = None"
    using three [THEN tenth(2)] sample_stages(10,11) by (simp add: on)
  then obtain c where c: "analyze True allModels everyStage qualityCanvasThrows sampleFile = Inr c"
    "error c = Some (''Analysis error: ''
       @ errorText (DomError ''IndexSizeError''
           ''Index or size is negative or greater than the allowed amount''))"
    "providerFields allModels everyStage qualityCanvasThrows sampleFile c"
    "pHash c = Some (generatePHash (transparentPixels 1024))" "quality c = None"
    "palette c = None"
    by blast
  have c': "classification c = Some [\<lparr> label = ''image'', score = 6 / 10 \<rparr>]"
    "ocrText c = Some []"
    using sample_provider_fields [OF c(3)]
    by (simp_all add: qualityCanvasThrows_def providersThrow_def)
  from c(2) have c'': "error c = Some (''Analysis error: IndexSizeError: ''
                            @ ''Index or size is negative or greater than the allowed amount'')"
    by (simp add: errorText_def errorToString_def)
  have "\<exists>a. analyze True allModels everyStage paletteThrows sampleFile = Inr a
          \<and> error a = Some (''Analysis error: ''
              @ errorText (TypeError ''randomPixel is not iterable''))
          \<and> providerFields allModels everyStage paletteThrows sampleFile a
          \<and> pHash a = Some (generatePHash hashBuffer)
          \<and> quality a = Some (analyzeQuality onePixel)
          \<and> palette a = None"
    using four [THEN tenth(3)] sample_stages(13-15) by (simp add: on)
  then obtain d where d: "analyze True allModels everyStage paletteThrows sampleFile = Inr d"
    "error d = Some (''Analysis error: '' @ errorText (TypeError ''randomPixel is not iterable''))"
    "providerFields allModels everyStage paletteThrows sampleFile d"
    "pHash d = Some (generatePHash hashBuffer)" "quality d = Some (analyzeQuality onePixel)"
    "palette d = None"
    by blast
  have d': "classification d = Some [\<lparr> label = ''image'', score = 6 / 10 \<rparr>]"
    "ocrText d = Some []"
    using sample_provider_fields [OF d(3)]
    by (simp_all add: paletteThrows_def providersThrow_def)
  from d(2) have d'': "error d = Some ''Analysis error: TypeError: randomPixel is not iterable''"
    by (simp add: errorText_def errorToString_def)
  have A: "\<exists>a. analyze True allModels everyStage providersThrow sampleFile = Inr a
          \<and> error a = None
          \<and> classification a = Some [\<lparr> label = ''image'', score = 6 / 10 \<rparr>]
          \<and> description a = Some ''A clear and well-composed image''
          \<and> objects a = Some [] \<and> nsfw a = Some fallbackNsfw \<and> faces a = Some []
          \<and> ocrText a = Some []
          \<and> pHash a = Some (generatePHash hashBuffer)
          \<and> quality a = Some (analyzeQuality onePixel)
          \<and> palette a = Some [''#ffffff'', ''#000000'', ''#000000'', ''#000000'', ''#000000'']"
    using a a' by (intro exI [of _ a] conjI)
  have B: "\<exists>a. analyze True allModels everyStage hashCanvasThrows sampleFile = Inr a
          \<and> error a = Some ''Analysis error: SecurityError: The operation is insecure.''
          \<and> classification a = Some [\<lparr> label = ''image'', score = 6 / 10 \<rparr>]
          \<and> ocrText a = Some []
          \<and> pHash a = None \<and> quality a = None \<and> palette a = None"
    using b b' b'' by (intro exI [of _ b] conjI)
  have C: "\<exists>a. analyze True allModels everyStage qualityCanvasThrows sampleFile = Inr a
          \<and> error a = Some (''Analysis error: IndexSizeError: ''
                            @ ''Index or size is negative or greater than the allowed amount'')
          \<and> classification a = Some [\<lparr> label = ''image'', score = 6 / 10 \<rparr>]
          \<and> ocrText a = Some []
          \<and> pHash a = Some (generatePHash (transparentPixels 1024))
          \<and> quality a = None \<and> palette a = None"
    using c c' c'' by (intro exI [of _ c] conjI)
  have D: "\<exists>a. analyze True allModels everyStage paletteThrows sampleFile = Inr a
          \<and> error a = Some ''Analysis error: TypeError: randomPixel is not iterable''
          \<and> classification a = Some [\<lparr> label = ''image'', score = 6 / 10 \<rparr>]
          \<and> ocrText a = Some []
          \<and> pHash a = Some (generatePHash hashBuffer)
          \<and> quality a = Some (analyzeQuality onePixel)
          \<and> palette a = None"
    using d d' d'' by (intro exI [of _ d] conjI)
  from sample_stages(1) sample_fallbacks fb A B C D show ?thesis
    by (intro conjI)
qed

text \<open>
  The claim as stated fails: with every stage but object detection enabled and the
  quality and palette stages able to succeed, an exception in the hash stage leaves
  both of them unrun.
\<close>

theorem hash_failure_aborts_siblings_counterexample:
  "runQualityAnalysis defaultAiSettings \<and> runColorPalette defaultAiSettings
   \<and> qualityStage hashCanvasThrows = Inr (analyzeQuality onePixel)
   \<and> paletteStage hashCanvasThrows
       = Inr [''#ffffff'', ''#000000'', ''#000000'', ''#000000'', ''#000000'']
   \<and> hashStage hashCanvasThrows
       = Inl (DomError ''SecurityError'' ''The operation is insecure.'')
   \<and> (case analyze True allModels defaultAiSettings hashCanvasThrows sampleFile of
        Inl e \<Rightarrow> False
      | Inr a \<Rightarrow> quality a = None \<and> palette a = None
                 \<and> error a = Some ''Analysis error: SecurityError: The operation is insecure.'')"
proof -
  have d: "runDuplicateDetection defaultAiSettings" "runQualityAnalysis defaultAiSettings"
    "runColorPalette defaultAiSettings"
    by (simp_all add: defaultAiSettings_def)
  from analyze_hash_throws [OF sample_stages(5) d(1) sample_stages(6),
      where m = allModels and f = sampleFile]
  have "case analyze True allModels defaultAiSettings hashCanvasThrows sampleFile of
        Inl e \<Rightarrow> False
      | Inr a \<Rightarrow> quality a = None \<and> palette a = None
                 \<and> error a = Some ''Analysis error: SecurityError: The operation is insecure.''"
    by (auto simp: errorText_def errorToString_def)
  with d sample_stages(6-8) show ?thesis by simp
qed

end
